theory Spec2Isabelle
  imports Complex_Main "HOL-Library.Sublist"
begin

section \<open>Data model\<close>

text \<open>
  The drawing surface of the repository is the class \<open>CanvasManager\<close> together with the
  module-level functions \<open>pushPoint\<close>, \<open>erase\<close>, \<open>isCloser\<close>, \<open>removePaths\<close>,
  \<open>addPaths\<close>, \<open>removePathsByIds\<close> and \<open>addToSet\<close>.

  Coordinates are JavaScript numbers. A coordinate is modelled as the real number that a
  finite double stands for, so equality is the mathematical one (no NaN). The arithmetic of
  the hit test is rounded as double arithmetic is, see \<open>roundDouble\<close>; the sums and
  differences of event coordinates, offsets and scroll positions are taken exactly.
\<close>

record point =
  point_x :: real
  point_y :: real

record path =
  path_id :: string
  path_color :: string
  path_width :: real
  path_points :: "point list"

subsection \<open>JavaScript \<open>Set\<close>\<close>

text \<open>
  A JavaScript \<open>Set\<close> iterates in insertion order, so it is modelled as the list of its
  elements in insertion order. \<open>Array.from(set)\<close> is then the list itself.
\<close>

definition Set_has :: "'a list \<Rightarrow> 'a \<Rightarrow> bool" where
  "Set_has s v = (v \<in> set s)"

definition Set_add :: "'a list \<Rightarrow> 'a \<Rightarrow> 'a list" where
  "Set_add s v = (if v \<in> set s then s else s @ [v])"

definition addToSet :: "'a list \<Rightarrow> 'a list \<Rightarrow> 'a list" where
  "addToSet s items = fold (\<lambda>item acc. Set_add acc item) items s"

definition new_Set :: "'a list \<Rightarrow> 'a list" where
  "new_Set items = addToSet [] items"

subsection \<open>Arrays of paths with identity\<close>

text \<open>
  The code compares arrays of paths by reference (\<open>newPaths !== paths\<close>), so an array of
  paths is a reference into a store. The store is the list of all arrays that were
  returned so far; a reference is an index into it. \<open>filter\<close> and \<open>concat\<close> create a new
  array, which gets the next free index. An array that a function creates and then drops
  before it returns is unreachable and is not recorded.
\<close>

type_synonym ref = nat
type_synonym heap = "path list list"

definition deref :: "heap \<Rightarrow> ref \<Rightarrow> path list" where
  "deref h r = (if r < length h then h ! r else [])"

definition alloc :: "heap \<Rightarrow> path list \<Rightarrow> ref \<times> heap" where
  "alloc h ps = (length h, h @ [ps])"

section \<open>Geometry and path model\<close>

text \<open>
  \<open>pushPoint\<close> mutates the array it is given; the model returns the array after the call.
  The argument may be \<open>null\<close> or \<open>undefined\<close> (\<open>None\<close>), in which case nothing happens.
\<close>

definition pushPoint :: "point list option \<Rightarrow> point \<Rightarrow> point list option" where
  "pushPoint points point =
     (case points of
        None \<Rightarrow> None
      | Some ps \<Rightarrow>
          if length ps > 0 \<and> point_x (last ps) = point_x point \<and> point_y (last ps) = point_y point
          then Some ps
          else Some (ps @ [point]))"

subsection \<open>Double arithmetic\<close>

text \<open>
  The result of an arithmetic operation on doubles is the exact result rounded to the
  nearest double, ties to the even significand (IEEE 754 binary64: 53 significant bits,
  least exponent -1022, so the grid below \<open>2 ^ -1022\<close> has step \<open>2 ^ -1074\<close>).
  \<open>roundEven\<close> rounds a real to the nearest integer, ties to even; \<open>roundDouble\<close> rounds
  a real to the grid of its binade. A result beyond the range of the doubles is kept as a
  large real where the code has \<open>Infinity\<close>; in the hit test it is compared with the
  squared radius 9 only, and is larger in both.
\<close>

definition roundEven :: "real \<Rightarrow> int" where
  "roundEven v =
     (let f = \<lfloor>v\<rfloor>; d = v - of_int f
      in if d < 1 / 2 then f
         else if 1 / 2 < d then f + 1
         else if even f then f else f + 1)"

definition roundDouble :: "real \<Rightarrow> real" where
  "roundDouble v =
     (if v = 0 then 0
      else
        let e = \<lfloor>log 2 \<bar>v\<bar>\<rfloor>;
            q = max e (- 1022) - 52
        in of_int (roundEven (v / 2 powr of_int q)) * 2 powr of_int q)"

subsection \<open>Hit test\<close>

text \<open>
  \<open>isCloser\<close> evaluates \<open>(x1 - x2) ** 2 + (y1 - y2) ** 2 <= r ** 2\<close>; each subtraction,
  square and sum yields a double. \<open>v ** 2\<close> is taken as the correctly rounded square.
\<close>

definition isCloser :: "point \<Rightarrow> point \<Rightarrow> real \<Rightarrow> bool" where
  "isCloser p1 p2 r =
     (let d = roundDouble
                (roundDouble ((roundDouble (point_x p1 - point_x p2)) ^ 2) +
                 roundDouble ((roundDouble (point_y p1 - point_y p2)) ^ 2))
      in d \<le> roundDouble (r ^ 2))"

fun erase :: "path list \<Rightarrow> point \<Rightarrow> string list" where
  "erase [] p1 = []"
| "erase (pa # paths) p1 =
     (if list_ex (\<lambda>p2. isCloser p1 p2 3) (path_points pa)
      then path_id pa # erase paths p1
      else erase paths p1)"

definition removePaths :: "heap \<Rightarrow> ref \<Rightarrow> string list \<Rightarrow> ref \<times> heap" where
  "removePaths h paths pathIdsToRemove =
     (let newPaths = filter (\<lambda>pa. \<not> Set_has pathIdsToRemove (path_id pa)) (deref h paths)
      in if length newPaths = length (deref h paths) then (paths, h) else alloc h newPaths)"

text \<open>
  The callback of \<open>pathsToAdd.filter\<close> in \<open>addPaths\<close> reads and extends \<open>idSet\<close> while
  it runs; the set is threaded through the recursion.
\<close>

fun pathsToReallyAdd :: "string list \<Rightarrow> path list \<Rightarrow> path list" where
  "pathsToReallyAdd idSet [] = []"
| "pathsToReallyAdd idSet (pa # pathsToAdd) =
     (if Set_has idSet (path_id pa) then pathsToReallyAdd idSet pathsToAdd
      else pa # pathsToReallyAdd (Set_add idSet (path_id pa)) pathsToAdd)"

definition addPaths :: "heap \<Rightarrow> ref \<Rightarrow> path list \<Rightarrow> ref \<times> heap" where
  "addPaths h paths pathsToAdd =
     (let idSet = new_Set (map path_id (deref h paths));
          really = pathsToReallyAdd idSet pathsToAdd
      in if length really = 0 then (paths, h) else alloc h (deref h paths @ really))"

definition removePathsByIds :: "heap \<Rightarrow> ref \<Rightarrow> string list \<Rightarrow> ref \<times> heap" where
  "removePathsByIds h paths pathIdsToRemove =
     (let pathIdsSetToRemove = new_Set pathIdsToRemove;
          newPaths = filter (\<lambda>pa. \<not> Set_has pathIdsSetToRemove (path_id pa)) (deref h paths)
      in if length newPaths = length (deref h paths) then (paths, h) else alloc h newPaths)"

section \<open>The surface controller\<close>

datatype Tool = Pen | Hand | Eraser

record MouseEvent =
  mouse_clientX :: real
  mouse_clientY :: real

record Touch =
  touch_clientX :: real
  touch_clientY :: real
  touchType :: string

record TouchEvent =
  changedTouches :: "Touch list"

record WheelEvent =
  deltaX :: real
  deltaY :: real

text \<open>
  The collaborators of \<open>CanvasManager\<close> are recorded in the state:
  \<^item> \<open>requestAnimationFrame\<close> appends the callback to \<open>rafQueue\<close>; the two callbacks of
    the class are the one of \<open>tickDraw\<close> and the one of \<open>tickScroll\<close>;
  \<^item> \<open>pictureService.addAndRemovePaths\<close> appends its arguments to \<open>serviceCalls\<close>;
  \<^item> the 2d context keeps the strokes drawn since the last \<open>clearRect\<close> in \<open>canvas\<close>;
    \<open>hasContext\<close> says that \<open>renderingContext\<close> is not \<open>null\<close>.
\<close>

datatype rafCallback = DrawCallback | ScrollCallback

datatype serviceCall =
  AddAndRemovePaths string "path list option" "string list option"

record stroke =
  lineWidth :: real
  strokeStyle :: string
  polyline :: "(real \<times> real) list"

record manager =
  dpr :: real
  offsetLeft :: real
  offsetTop :: real
  width :: real
  height :: real
  tool :: Tool
  palmRejection :: bool
  paths :: ref
  drawingPath :: "path option"
  erasingPathIds :: "string list option"
  pictureId :: string
  scrollLeft :: real
  scrollTop :: real
  bufferedScrollLeft :: real
  bufferedScrollTop :: real
  tickingDraw :: bool
  tickingScroll :: bool
  prevX :: real
  prevY :: real
  handScrollingByMouse :: bool
  heap :: heap
  hasContext :: bool
  canvas :: "stroke list"
  rafQueue :: "rafCallback list"
  serviceCalls :: "serviceCall list"

definition setTool :: "Tool \<Rightarrow> manager \<Rightarrow> manager" where
  "setTool t s = s\<lparr>tool := t\<rparr>"

definition setPalmRejection :: "bool \<Rightarrow> manager \<Rightarrow> manager" where
  "setPalmRejection b s = s\<lparr>palmRejection := b\<rparr>"

subsection \<open>Rendering\<close>

definition drawPath :: "stroke list \<Rightarrow> path \<Rightarrow> real \<Rightarrow> real \<Rightarrow> real \<Rightarrow> stroke list" where
  "drawPath ctx pa sl st d =
     (if length (path_points pa) = 0 then ctx
      else ctx @ [\<lparr>lineWidth = path_width pa * d, strokeStyle = path_color pa,
                   polyline = map (\<lambda>p. ((point_x p - sl) * d, (point_y p - st) * d))
                                  (path_points pa)\<rparr>])"

definition draw :: "manager \<Rightarrow> manager" where
  "draw s =
     (if \<not> hasContext s then s
      else
        let shown = (case erasingPathIds s of
                       None \<Rightarrow> deref (heap s) (paths s)
                     | Some ids \<Rightarrow> filter (\<lambda>pa. \<not> Set_has ids (path_id pa))
                                          (deref (heap s) (paths s)));
            ctx1 = fold (\<lambda>pa ctx. drawPath ctx pa (scrollLeft s) (scrollTop s) (dpr s)) shown [];
            ctx2 = (case drawingPath s of
                      None \<Rightarrow> ctx1
                    | Some dp \<Rightarrow> drawPath ctx1 dp (scrollLeft s) (scrollTop s) (dpr s))
        in s\<lparr>canvas := ctx2\<rparr>)"

subsection \<open>Frame scheduler\<close>

text \<open>
  The bodies of the two animation-frame callbacks, statement by statement: the callback
  of \<open>tickDraw\<close> calls \<open>draw\<close> and then resets \<open>tickingDraw\<close>; the callback of
  \<open>tickScroll\<close> copies the buffered offsets, resets \<open>tickingScroll\<close> and then calls
  \<open>draw\<close>.
\<close>

definition tickDraw_callback :: "manager \<Rightarrow> manager" where
  "tickDraw_callback s = (draw s)\<lparr>tickingDraw := False\<rparr>"

definition tickScroll_callback :: "manager \<Rightarrow> manager" where
  "tickScroll_callback s =
     draw (s\<lparr>scrollLeft := bufferedScrollLeft s,
             scrollTop := bufferedScrollTop s,
             tickingScroll := False\<rparr>)"

definition tickDraw :: "manager \<Rightarrow> manager" where
  "tickDraw s =
     (if tickingDraw s then s
      else s\<lparr>tickingDraw := True, rafQueue := rafQueue s @ [DrawCallback]\<rparr>)"

definition tickScroll :: "manager \<Rightarrow> manager" where
  "tickScroll s =
     (if tickingScroll s then s
      else s\<lparr>tickingScroll := True, rafQueue := rafQueue s @ [ScrollCallback]\<rparr>)"

text \<open>The browser takes the oldest scheduled callback off the queue and runs it.\<close>

definition runCallback :: "rafCallback \<Rightarrow> manager \<Rightarrow> manager" where
  "runCallback cb s =
     (case cb of
        DrawCallback \<Rightarrow> tickDraw_callback s
      | ScrollCallback \<Rightarrow> tickScroll_callback s)"

definition runFrame :: "manager \<Rightarrow> manager" where
  "runFrame s =
     (case rafQueue s of
        [] \<Rightarrow> s
      | cb # rest \<Rightarrow> runCallback cb (s\<lparr>rafQueue := rest\<rparr>))"

subsection \<open>Mutation interface of the sync transport\<close>

definition CanvasManager_addPaths :: "path list \<Rightarrow> manager \<Rightarrow> manager" where
  "CanvasManager_addPaths pathsToAdd s =
     (let (r, h) = addPaths (heap s) (paths s) pathsToAdd
      in tickDraw (s\<lparr>paths := r, heap := h\<rparr>))"

definition CanvasManager_removePathsById :: "string list \<Rightarrow> manager \<Rightarrow> manager" where
  "CanvasManager_removePathsById pathIdsToRemove s =
     (let (r, h) = removePathsByIds (heap s) (paths s) pathIdsToRemove
      in tickDraw (s\<lparr>paths := r, heap := h\<rparr>))"

subsection \<open>Event coordinates\<close>

text \<open>
  \<open>updateOffset\<close> reads the bounding rectangle of the canvas element; the rectangle is an
  argument (\<open>None\<close> when no canvas element is attached).
\<close>

definition updateOffset :: "(real \<times> real) option \<Rightarrow> manager \<Rightarrow> manager" where
  "updateOffset rect s =
     (case rect of
        None \<Rightarrow> s
      | Some (l, t) \<Rightarrow> s\<lparr>offsetLeft := l, offsetTop := t\<rparr>)"

definition getPointFromMouseEvent :: "manager \<Rightarrow> MouseEvent \<Rightarrow> bool \<Rightarrow> point" where
  "getPointFromMouseEvent s event ignoreScroll =
     (let x = mouse_clientX event - offsetLeft s;
          y = mouse_clientY event - offsetTop s
      in if \<not> ignoreScroll
         then \<lparr>point_x = x + scrollLeft s, point_y = y + scrollTop s\<rparr>
         else \<lparr>point_x = x, point_y = y\<rparr>)"

definition getTouch :: "manager \<Rightarrow> TouchEvent \<Rightarrow> bool \<Rightarrow> Touch option" where
  "getTouch s event dontCareTouchType =
     (if \<not> palmRejection s \<or> dontCareTouchType
      then (case changedTouches event of [] \<Rightarrow> None | t # _ \<Rightarrow> Some t)
      else find (\<lambda>t. touchType t = ''stylus'') (changedTouches event))"

definition getPointFromTouchEvent :: "manager \<Rightarrow> TouchEvent \<Rightarrow> bool \<Rightarrow> point option" where
  "getPointFromTouchEvent s event ignoreScrollAndTouchType =
     (case getTouch s event ignoreScrollAndTouchType of
        None \<Rightarrow> None
      | Some t \<Rightarrow>
          let x = touch_clientX t - offsetLeft s;
              y = touch_clientY t - offsetTop s
          in if \<not> ignoreScrollAndTouchType
             then Some \<lparr>point_x = x + scrollLeft s, point_y = y + scrollTop s\<rparr>
             else Some \<lparr>point_x = x, point_y = y\<rparr>)"

text \<open>The points of a path after \<open>pushPoint(path.points, p)\<close>.\<close>

definition pushPointTo :: "path \<Rightarrow> point \<Rightarrow> path" where
  "pushPointTo dp p =
     (case pushPoint (Some (path_points dp)) p of
        None \<Rightarrow> dp
      | Some ps \<Rightarrow> dp\<lparr>path_points := ps\<rparr>)"

text \<open>
  The block that commits a drawn path, the same in \<open>handleGlobalMouseUp\<close> and
  \<open>handleTouchEnd\<close>: \<open>paths.concat([drawingPath])\<close> is a new array.
\<close>

definition commitDrawingPath :: "path \<Rightarrow> manager \<Rightarrow> manager" where
  "commitDrawingPath dp s =
     (let s1 = (if length (path_points dp) > 1
                then (let (r, h) = alloc (heap s) (deref (heap s) (paths s) @ [dp])
                      in s\<lparr>paths := r, heap := h,
                           serviceCalls := serviceCalls s @
                             [AddAndRemovePaths (pictureId s) (Some [dp]) None]\<rparr>)
                else s)
      in s1\<lparr>drawingPath := None\<rparr>)"

text \<open>The block that commits an erasure, the same in both handlers.\<close>

definition commitErasing :: "string list \<Rightarrow> manager \<Rightarrow> manager" where
  "commitErasing ids s =
     (let (newPaths, h) = removePaths (heap s) (paths s) ids;
          s1 = (if newPaths \<noteq> paths s
                then s\<lparr>paths := newPaths, heap := h,
                       serviceCalls := serviceCalls s @
                         [AddAndRemovePaths (pictureId s) None (Some ids)]\<rparr>
                else s)
      in s1\<lparr>erasingPathIds := None\<rparr>)"

subsection \<open>Mouse handlers\<close>

text \<open>\<open>generateId()\<close> is an argument of the handlers that start a path.\<close>

definition handleMouseDown ::
  "(real \<times> real) option \<Rightarrow> string \<Rightarrow> MouseEvent \<Rightarrow> manager \<Rightarrow> manager" where
  "handleMouseDown rect newId event s0 =
     (let s = updateOffset rect s0 in
      case tool s of
        Pen \<Rightarrow>
          s\<lparr>drawingPath := Some \<lparr>path_id = newId, path_color = ''#000'', path_width = 3,
                                  path_points = [getPointFromMouseEvent s event False]\<rparr>\<rparr>
      | Eraser \<Rightarrow>
          (let p = getPointFromMouseEvent s event False
           in tickDraw (s\<lparr>erasingPathIds := Some (new_Set (erase (deref (heap s) (paths s)) p))\<rparr>))
      | Hand \<Rightarrow>
          (let p = getPointFromMouseEvent s event True
           in s\<lparr>prevX := point_x p, prevY := point_y p, handScrollingByMouse := True\<rparr>))"

definition handleMouseMove :: "MouseEvent \<Rightarrow> manager \<Rightarrow> manager" where
  "handleMouseMove event s =
     (case tool s of
        Pen \<Rightarrow>
          (case drawingPath s of
             None \<Rightarrow> s
           | Some dp \<Rightarrow>
               tickDraw (s\<lparr>drawingPath :=
                             Some (pushPointTo dp (getPointFromMouseEvent s event False))\<rparr>))
      | Eraser \<Rightarrow>
          (case erasingPathIds s of
             None \<Rightarrow> s
           | Some ids \<Rightarrow>
               (let p = getPointFromMouseEvent s event False
                in tickDraw (s\<lparr>erasingPathIds :=
                                 Some (addToSet ids (erase (deref (heap s) (paths s)) p))\<rparr>)))
      | Hand \<Rightarrow>
          (if handScrollingByMouse s
           then (let p = getPointFromMouseEvent s event True
                 in tickScroll (s\<lparr>bufferedScrollLeft := bufferedScrollLeft s + (prevX s - point_x p),
                                   bufferedScrollTop := bufferedScrollTop s + (prevY s - point_y p),
                                   prevX := point_x p,
                                   prevY := point_y p\<rparr>))
           else s))"

definition handleGlobalMouseUp :: "manager \<Rightarrow> manager" where
  "handleGlobalMouseUp s =
     (case tool s of
        Pen \<Rightarrow>
          (case drawingPath s of
             None \<Rightarrow> s
           | Some dp \<Rightarrow> commitDrawingPath dp s)
      | Eraser \<Rightarrow>
          (case erasingPathIds s of
             None \<Rightarrow> s
           | Some ids \<Rightarrow> commitErasing ids s)
      | Hand \<Rightarrow> s\<lparr>handScrollingByMouse := False\<rparr>)"

subsection \<open>Touch handlers\<close>

text \<open>
  The touch handlers are \<open>switch\<close> statements whose cases fall through when the event
  gives no point: the \<open>pen\<close> case continues with the \<open>eraser\<close> case, which continues with
  the \<open>default\<close> case. Each case is a function that calls the next one where the source
  falls through.
\<close>

definition handleTouchStart_default :: "TouchEvent \<Rightarrow> manager \<Rightarrow> manager" where
  "handleTouchStart_default event s =
     (case getPointFromTouchEvent s event True of
        None \<Rightarrow> s
      | Some p \<Rightarrow> s\<lparr>prevX := point_x p, prevY := point_y p\<rparr>)"

definition handleTouchStart_eraser :: "TouchEvent \<Rightarrow> manager \<Rightarrow> manager" where
  "handleTouchStart_eraser event s =
     (case getPointFromTouchEvent s event False of
        None \<Rightarrow> handleTouchStart_default event s
      | Some p \<Rightarrow>
          (let pathIdsToRemove = erase (deref (heap s) (paths s)) p
           in tickDraw (case erasingPathIds s of
                          Some ids \<Rightarrow> s\<lparr>erasingPathIds := Some (addToSet ids pathIdsToRemove)\<rparr>
                        | None \<Rightarrow> s\<lparr>erasingPathIds := Some (new_Set pathIdsToRemove)\<rparr>)))"

definition handleTouchStart ::
  "(real \<times> real) option \<Rightarrow> string \<Rightarrow> TouchEvent \<Rightarrow> manager \<Rightarrow> manager" where
  "handleTouchStart rect newId event s0 =
     (let s = updateOffset rect s0 in
      case tool s of
        Pen \<Rightarrow>
          (case getPointFromTouchEvent s event False of
             None \<Rightarrow> handleTouchStart_eraser event s
           | Some p \<Rightarrow>
               s\<lparr>drawingPath := Some \<lparr>path_id = newId, path_color = ''#000'', path_width = 3,
                                       path_points = [p]\<rparr>\<rparr>)
      | Eraser \<Rightarrow> handleTouchStart_eraser event s
      | Hand \<Rightarrow> handleTouchStart_default event s)"

definition handleTouchMove_default :: "TouchEvent \<Rightarrow> manager \<Rightarrow> manager" where
  "handleTouchMove_default event s =
     (case getPointFromTouchEvent s event True of
        None \<Rightarrow> s
      | Some p \<Rightarrow>
          tickScroll (s\<lparr>bufferedScrollLeft := bufferedScrollLeft s + (prevX s - point_x p),
                        bufferedScrollTop := bufferedScrollTop s + (prevY s - point_y p),
                        prevX := point_x p,
                        prevY := point_y p\<rparr>))"

definition handleTouchMove_eraser :: "TouchEvent \<Rightarrow> manager \<Rightarrow> manager" where
  "handleTouchMove_eraser event s =
     (case getPointFromTouchEvent s event False of
        None \<Rightarrow> handleTouchMove_default event s
      | Some p \<Rightarrow>
          (case erasingPathIds s of
             None \<Rightarrow> s
           | Some ids \<Rightarrow>
               (let pathIdsToRemove = erase (deref (heap s) (paths s)) p
                in tickDraw (s\<lparr>erasingPathIds := Some (addToSet ids pathIdsToRemove)\<rparr>))))"

definition handleTouchMove :: "TouchEvent \<Rightarrow> manager \<Rightarrow> manager" where
  "handleTouchMove event s =
     (case tool s of
        Pen \<Rightarrow>
          (case getPointFromTouchEvent s event False of
             None \<Rightarrow> handleTouchMove_eraser event s
           | Some p \<Rightarrow>
               (case drawingPath s of
                  None \<Rightarrow> s
                | Some dp \<Rightarrow> tickDraw (s\<lparr>drawingPath := Some (pushPointTo dp p)\<rparr>)))
      | Eraser \<Rightarrow> handleTouchMove_eraser event s
      | Hand \<Rightarrow> handleTouchMove_default event s)"

text \<open>
  In the \<open>default\<close> case of \<open>handleTouchEnd\<close> both increments are applied to
  \<open>bufferedScrollLeft\<close>, one after the other, as in the source.
\<close>

definition handleTouchEnd_default :: "TouchEvent \<Rightarrow> manager \<Rightarrow> manager" where
  "handleTouchEnd_default event s =
     (case getPointFromTouchEvent s event True of
        None \<Rightarrow> s
      | Some p \<Rightarrow>
          (let s1 = s\<lparr>bufferedScrollLeft := bufferedScrollLeft s + (prevX s - point_x p)\<rparr>;
               s2 = s1\<lparr>bufferedScrollLeft := bufferedScrollLeft s1 + (prevY s1 - point_y p)\<rparr>
           in tickScroll (s2\<lparr>prevX := point_x p, prevY := point_y p\<rparr>)))"

definition handleTouchEnd_eraser :: "TouchEvent \<Rightarrow> manager \<Rightarrow> manager" where
  "handleTouchEnd_eraser event s =
     (case getPointFromTouchEvent s event False of
        None \<Rightarrow> handleTouchEnd_default event s
      | Some p \<Rightarrow>
          (case erasingPathIds s of
             None \<Rightarrow> s
           | Some ids \<Rightarrow>
               (let pathIdsToRemove = erase (deref (heap s) (paths s)) p
                in commitErasing (addToSet ids pathIdsToRemove) s)))"

definition handleTouchEnd :: "TouchEvent \<Rightarrow> manager \<Rightarrow> manager" where
  "handleTouchEnd event s =
     (case tool s of
        Pen \<Rightarrow>
          (case getPointFromTouchEvent s event False of
             None \<Rightarrow> handleTouchEnd_eraser event s
           | Some p \<Rightarrow>
               (case drawingPath s of
                  None \<Rightarrow> s
                | Some dp \<Rightarrow> commitDrawingPath (pushPointTo dp p) s))
      | Eraser \<Rightarrow> handleTouchEnd_eraser event s
      | Hand \<Rightarrow> handleTouchEnd_default event s)"

definition handleWheel :: "WheelEvent \<Rightarrow> manager \<Rightarrow> manager" where
  "handleWheel event s =
     tickScroll (s\<lparr>bufferedScrollLeft := bufferedScrollLeft s + deltaX event,
                   bufferedScrollTop := bufferedScrollTop s + deltaY event\<rparr>)"

text \<open>The state of a manager built by the constructor, before a canvas is attached.\<close>

definition newCanvasManager :: "string \<Rightarrow> manager" where
  "newCanvasManager pid =
     \<lparr>dpr = 1, offsetLeft = 0, offsetTop = 0, width = 0, height = 0,
      tool = Pen, palmRejection = False,
      paths = 0, drawingPath = None, erasingPathIds = None, pictureId = pid,
      scrollLeft = 0, scrollTop = 0, bufferedScrollLeft = 0, bufferedScrollTop = 0,
      tickingDraw = False, tickingScroll = False,
      prevX = 0, prevY = 0, handScrollingByMouse = False,
      heap = [[]], hasContext = False, canvas = [],
      rafQueue = [], serviceCalls = []\<rparr>"

subsection \<open>The stroke set\<close>

text \<open>The contents of the array that \<open>this.paths\<close> refers to.\<close>

definition strokeSet :: "manager \<Rightarrow> path list" where
  "strokeSet s = deref (heap s) (paths s)"

subsection \<open>Points on which the hit test is exact\<close>

text \<open>
  A point whose coordinates are integers of absolute value below \<open>2 ^ 25\<close>: between two
  such points the differences, their squares and the sum of the squares are integers
  below \<open>2 ^ 53\<close>, which are doubles.
\<close>

definition smallIntegerPoint :: "point \<Rightarrow> bool" where
  "smallIntegerPoint p =
     (of_int \<lfloor>point_x p\<rfloor> = point_x p \<and> \<bar>point_x p\<bar> < 2 ^ 25 \<and>
      of_int \<lfloor>point_y p\<rfloor> = point_y p \<and> \<bar>point_y p\<bar> < 2 ^ 25)"

section \<open>Example values\<close>

text \<open>
  Paths, events and manager states for the concrete evaluations below: the path \<open>a\<close> of
  the erase scenario, two different paths with the id \<open>x\<close>, a path with one point just
  outside the circle of radius 3 around the origin, a path in progress with one point, a touch event with one finger, and managers in the middle of a draw, erase or
  pan gesture or with a frame callback about to run.
\<close>

definition examplePathA :: path where
  "examplePathA = \<lparr>path_id = ''a'', path_color = ''#000'', path_width = 3,
                    path_points = [\<lparr>point_x = 0, point_y = 0\<rparr>, \<lparr>point_x = 10, point_y = 10\<rparr>]\<rparr>"

definition examplePathX :: path where
  "examplePathX = \<lparr>path_id = ''x'', path_color = ''#000'', path_width = 3,
                    path_points = [\<lparr>point_x = 1, point_y = 2\<rparr>, \<lparr>point_x = 3, point_y = 4\<rparr>]\<rparr>"

definition examplePathX2 :: path where
  "examplePathX2 = \<lparr>path_id = ''x'', path_color = ''#f00'', path_width = 1,
                     path_points = [\<lparr>point_x = 5, point_y = 5\<rparr>, \<lparr>point_x = 6, point_y = 6\<rparr>]\<rparr>"

definition boundaryPoint :: point where
  "boundaryPoint = \<lparr>point_x = 3, point_y = 1 / 2 ^ 30\<rparr>"

definition examplePathB :: path where
  "examplePathB = \<lparr>path_id = ''a'', path_color = ''#000'', path_width = 3,
                    path_points = [boundaryPoint]\<rparr>"

definition touchAt :: "real \<Rightarrow> real \<Rightarrow> TouchEvent" where
  "touchAt cx cy = \<lparr>changedTouches = [\<lparr>touch_clientX = cx, touch_clientY = cy, touchType = ''direct''\<rparr>]\<rparr>"

definition examplePathD :: path where
  "examplePathD = \<lparr>path_id = ''d'', path_color = ''#000'', path_width = 3,
                    path_points = [\<lparr>point_x = 0, point_y = 0\<rparr>]\<rparr>"

definition exampleDrawing :: "path \<Rightarrow> manager" where
  "exampleDrawing dp = (newCanvasManager ''p'')\<lparr>drawingPath := Some dp\<rparr>"

definition exampleErasing :: "string list \<Rightarrow> manager" where
  "exampleErasing ids =
     (newCanvasManager ''p'')\<lparr>tool := Eraser, heap := [[examplePathA, examplePathX]],
                               erasingPathIds := Some ids\<rparr>"

definition examplePanning :: manager where
  "examplePanning = (newCanvasManager ''p'')\<lparr>tool := Hand, prevX := 100, prevY := 100,
                                               handScrollingByMouse := True\<rparr>"



section \<open>Basic facts\<close>

lemma set_Set_add: "set (Set_add s v) = insert v (set s)"
  by (auto simp: Set_add_def)

lemma set_addToSet: "set (addToSet s items) = set s \<union> set items"
  unfolding addToSet_def
  by (induction items arbitrary: s) (auto simp: set_Set_add)

lemma set_new_Set: "set (new_Set items) = set items"
  by (simp add: new_Set_def set_addToSet)

lemma Set_has_new_Set: "Set_has (new_Set items) v = (v \<in> set items)"
  by (simp add: Set_has_def set_new_Set)

lemma deref_alloc_new: "deref (snd (alloc h ps)) (fst (alloc h ps)) = ps"
  by (simp add: deref_def alloc_def)

lemma deref_alloc_old: "r < length h \<Longrightarrow> deref (snd (alloc h ps)) r = deref h r"
  by (simp add: deref_def alloc_def nth_append)

lemma filter_length_same: "length (filter P xs) = length xs \<Longrightarrow> filter P xs = xs"
  by (metis filter_True length_filter_less less_irrefl)

lemma filter_length_same_iff: "(length (filter P xs) = length xs) = (\<forall>x\<in>set xs. P x)"
  by (metis filter_True filter_id_conv filter_length_same)

lemma point_eq_iff: "((a::point) = b) = (point_x a = point_x b \<and> point_y a = point_y b)"
  by auto

lemma pushPoint_Some:
  "pushPoint (Some ps) p = (if ps \<noteq> [] \<and> last ps = p then Some ps else Some (ps @ [p]))"
  by (auto simp: pushPoint_def)

subsection \<open>Rounding to a double\<close>

text \<open>A real of the form \<open>m * 2 ^ k\<close> with \<open>\<bar>m\<bar> < 2 ^ 53\<close> and \<open>k \<ge> -1074\<close> is a double: rounding leaves it as it is.\<close>

lemma roundEven_of_int: "roundEven (of_int n) = n"
  by (simp add: roundEven_def)

lemma roundDouble_at_exponent:
  assumes "v \<noteq> 0" and "2 powr of_int e \<le> \<bar>v\<bar>" and "\<bar>v\<bar> < 2 powr of_int (e + 1)"
  shows "roundDouble v =
           of_int (roundEven (v / 2 powr of_int (max e (- 1022) - 52)))
             * 2 powr of_int (max e (- 1022) - 52)"
proof -
  have "\<lfloor>log 2 \<bar>v\<bar>\<rfloor> = e"
    using assms by (subst floor_log_eq_powr_iff) simp_all
  with assms(1) show ?thesis by (simp add: roundDouble_def Let_def)
qed

lemma int_times_powr_is_int:
  assumes "0 \<le> j"
  shows "of_int m * 2 powr of_int j = (of_int (m * 2 ^ nat j) :: real)"
proof -
  have "2 powr (of_int j :: real) = 2 ^ nat j"
    using assms by (simp add: powr_int)
  then show ?thesis by simp
qed

lemma roundDouble_representable:
  assumes m: "\<bar>m\<bar> < 2 ^ 53" and k: "- 1074 \<le> k"
  shows "roundDouble (of_int m * 2 powr of_int k) = of_int m * 2 powr of_int k"
proof (cases "m = 0")
  case True
  then show ?thesis by (simp add: roundDouble_def)
next
  case False
  let ?v = "of_int m * 2 powr of_int k :: real"
  have v0: "?v \<noteq> 0" using False by simp
  define e where "e = \<lfloor>log 2 \<bar>?v\<bar>\<rfloor>"
  define q where "q = max e (- 1022) - 52"
  have pos: "0 < \<bar>?v\<bar>" using v0 by simp
  have "2 powr of_int e \<le> \<bar>?v\<bar>"
    using floor_log_eq_powr_iff [of "\<bar>?v\<bar>" 2 e] pos e_def by simp
  have "\<bar>?v\<bar> = of_int \<bar>m\<bar> * 2 powr of_int k"
    by (simp add: abs_mult)
  also have "\<dots> < 2 ^ 53 * 2 powr of_int k"
  proof -
    have "(of_int \<bar>m\<bar> :: real) < of_int (2 ^ 53)" using m by (simp only: of_int_less_iff)
    then show ?thesis by simp
  qed
  also have "\<dots> = 2 powr of_int (53 + k)"
    by (simp add: powr_add powr_int)
  finally have up: "\<bar>?v\<bar> < 2 powr of_int (53 + k)" .
  have "2 powr of_int e < (2::real) powr of_int (53 + k)"
    using \<open>2 powr of_int e \<le> \<bar>?v\<bar>\<close> up by linarith
  then have "e < 53 + k" by simp
  then have qk: "q \<le> k" using k by (simp add: q_def)
  have "?v / 2 powr of_int q = of_int m * 2 powr of_int (k - q)"
    by (simp add: powr_diff)
  also have "\<dots> = of_int (m * 2 ^ nat (k - q))"
    using qk by (intro int_times_powr_is_int) simp
  finally have r: "roundEven (?v / 2 powr of_int q) = m * 2 ^ nat (k - q)"
    by (simp only: roundEven_of_int)
  have "(of_int (m * 2 ^ nat (k - q)) :: real) = of_int m * 2 powr of_int (k - q)"
    using qk by (intro int_times_powr_is_int [symmetric]) simp
  then have "real_of_int (roundEven (?v / 2 powr of_int q)) * 2 powr of_int q
               = of_int m * (2 powr of_int (k - q) * 2 powr of_int q)"
    unfolding r by (simp only: mult.assoc)
  also have "2 powr of_int (k - q) * 2 powr of_int q = (2::real) powr of_int k"
    unfolding powr_add [symmetric] by simp
  finally show ?thesis
    using v0 by (simp add: roundDouble_def Let_def e_def q_def)
qed

lemma roundDouble_of_int: "\<bar>m\<bar> < 2 ^ 53 \<Longrightarrow> roundDouble (of_int m) = of_int m"
  using roundDouble_representable [of m 0] by simp

lemma roundDouble_numeral:
  "numeral n < (2 ^ 53 :: int) \<Longrightarrow> roundDouble (numeral n) = numeral n"
  "numeral n < (2 ^ 53 :: int) \<Longrightarrow> roundDouble (- numeral n) = - numeral n"
  "roundDouble 0 = 0" "roundDouble 1 = 1" "roundDouble (- 1) = - 1"
  using roundDouble_of_int [of "numeral n"] roundDouble_of_int [of "- numeral n"]
        roundDouble_of_int [of 1] roundDouble_of_int [of "- 1"]
  by (simp_all add: roundDouble_def)

lemma roundDouble_inv_pow2:
  "n \<le> 1074 \<Longrightarrow> roundDouble (1 / 2 ^ n) = 1 / 2 ^ n"
  "n \<le> 1074 \<Longrightarrow> roundDouble (- (1 / 2 ^ n)) = - (1 / 2 ^ n)"
  using roundDouble_representable [of 1 "- int n"] roundDouble_representable [of "- 1" "- int n"]
  by (simp_all add: powr_minus powr_realpow inverse_eq_divide)

lemma roundDouble_nine_plus: "roundDouble (9 + 1 / 2 ^ 60) = 9"
proof -
  let ?v = "9 + 1 / 2 ^ 60 :: real"
  have b: "2 powr of_int 3 \<le> \<bar>?v\<bar>" "\<bar>?v\<bar> < 2 powr of_int (3 + 1)"
    by (simp_all add: powr_int)
  have q: "max (3::int) (- 1022) - 52 = - 49" by simp
  have p: "(2::real) powr of_int (- 49) = 1 / 2 ^ 49"
    using powr_int [of 2 "- 49"] by simp
  have d: "?v / (1 / 2 ^ 49) = of_int (9 * 2 ^ 49) + 1 / 2 ^ 11"
    by simp
  have fl: "\<lfloor>of_int (9 * 2 ^ 49) + 1 / 2 ^ 11 :: real\<rfloor> = 9 * 2 ^ 49"
    by (rule floor_unique) simp_all
  have r: "roundEven (of_int (9 * 2 ^ 49) + 1 / 2 ^ 11) = 9 * 2 ^ 49"
    unfolding roundEven_def Let_def fl by simp
  have "?v \<noteq> 0" by simp
  have "roundDouble ?v = real_of_int (9 * 2 ^ 49) * (1 / 2 ^ 49)"
    using roundDouble_at_exponent [OF \<open>?v \<noteq> 0\<close> b] unfolding q p d r .
  then show ?thesis by simp
qed

subsection \<open>Hit test and merging\<close>

lemma erase_filter:
  "erase pths p1 = map path_id (filter (\<lambda>pa. \<exists>p2\<in>set (path_points pa). isCloser p1 p2 3) pths)"
  by (induction pths) (auto simp: list_ex_iff)

lemma ids_pathsToReallyAdd:
  "set (map path_id (pathsToReallyAdd idSet P)) = set (map path_id P) - set idSet"
  by (induction P arbitrary: idSet) (auto simp: Set_has_def set_Set_add)

lemma distinct_pathsToReallyAdd:
  "distinct (map path_id (pathsToReallyAdd idSet P))"
proof (induction P arbitrary: idSet)
  case Nil
  show ?case by simp
next
  case (Cons pa P)
  have "path_id pa \<notin> set (map path_id (pathsToReallyAdd (Set_add idSet (path_id pa)) P))"
    unfolding ids_pathsToReallyAdd by (simp add: set_Set_add)
  with Cons show ?case by simp
qed

lemma subseq_pathsToReallyAdd: "subseq (pathsToReallyAdd idSet P) P"
  by (induction P arbitrary: idSet) auto

lemma first_pathsToReallyAdd:
  "pa \<in> set (pathsToReallyAdd idSet P) \<Longrightarrow>
     path_id pa \<notin> set idSet \<and> find (\<lambda>q. path_id q = path_id pa) P = Some pa"
proof (induction P arbitrary: idSet)
  case Nil
  then show ?case by simp
next
  case (Cons q P)
  show ?case
  proof (cases "Set_has idSet (path_id q)")
    case True
    with Cons.prems have "pa \<in> set (pathsToReallyAdd idSet P)" by simp
    from Cons.IH [OF this] True show ?thesis by (auto simp: Set_has_def)
  next
    case False
    with Cons.prems have "pa = q \<or> pa \<in> set (pathsToReallyAdd (Set_add idSet (path_id q)) P)"
      by auto
    then show ?thesis
    proof
      assume "pa = q"
      with False show ?thesis by (simp add: Set_has_def)
    next
      assume "pa \<in> set (pathsToReallyAdd (Set_add idSet (path_id q)) P)"
      from Cons.IH [OF this] show ?thesis by (auto simp: set_Set_add)
    qed
  qed
qed

lemma pathsToReallyAdd_Nil_iff:
  "(pathsToReallyAdd idSet P = []) = (set (map path_id P) \<subseteq> set idSet)"
proof -
  have "(pathsToReallyAdd idSet P = []) = (set (map path_id (pathsToReallyAdd idSet P)) = {})"
    by simp
  then show ?thesis unfolding ids_pathsToReallyAdd by auto
qed

lemma contents_addPaths:
  "deref (snd (addPaths h S P)) (fst (addPaths h S P)) =
     deref h S @ pathsToReallyAdd (new_Set (map path_id (deref h S))) P"
  by (simp add: addPaths_def Let_def deref_alloc_new)

lemma addPaths_same_iff:
  "S < length h \<Longrightarrow> (fst (addPaths h S P) = S) = (set (map path_id P) \<subseteq> set (map path_id (deref h S)))"
  by (auto simp: addPaths_def Let_def alloc_def pathsToReallyAdd_Nil_iff set_new_Set)

lemma addPaths_noop:
  "set (map path_id P) \<subseteq> set (map path_id (deref h S)) \<Longrightarrow> addPaths h S P = (S, h)"
  by (simp add: addPaths_def Let_def pathsToReallyAdd_Nil_iff set_new_Set)

lemma addPaths_twice:
  "addPaths (snd (addPaths h S P)) (fst (addPaths h S P)) P = addPaths h S P"
proof -
  have "set (map path_id P) \<subseteq> set (map path_id (deref (snd (addPaths h S P)) (fst (addPaths h S P))))"
  proof -
    have "set (map path_id (deref h S @ pathsToReallyAdd (new_Set (map path_id (deref h S))) P))
            = set (map path_id (deref h S)) \<union> set (map path_id P)"
      unfolding map_append set_append ids_pathsToReallyAdd set_new_Set by blast
    then show ?thesis unfolding contents_addPaths by blast
  qed
  from addPaths_noop [OF this] show ?thesis by simp
qed

lemma contents_removePathsByIds:
  "deref (snd (removePathsByIds h S L)) (fst (removePathsByIds h S L)) =
     filter (\<lambda>pa. path_id pa \<notin> set L) (deref h S)"
  by (auto simp: removePathsByIds_def Let_def deref_alloc_new Set_has_new_Set
           dest: filter_length_same)

lemma removePathsByIds_noop:
  "\<forall>pa\<in>set (deref h S). path_id pa \<notin> set L \<Longrightarrow> removePathsByIds h S L = (S, h)"
  by (simp add: removePathsByIds_def Let_def Set_has_new_Set)

lemma removePathsByIds_same_iff:
  "S < length h \<Longrightarrow> (fst (removePathsByIds h S L) = S) = (\<forall>pa\<in>set (deref h S). path_id pa \<notin> set L)"
  by (auto simp: removePathsByIds_def Let_def alloc_def Set_has_new_Set filter_length_same_iff)

lemma removePathsByIds_twice:
  "removePathsByIds (snd (removePathsByIds h S L)) (fst (removePathsByIds h S L)) L
     = removePathsByIds h S L"
proof -
  have "\<forall>pa\<in>set (deref (snd (removePathsByIds h S L)) (fst (removePathsByIds h S L))). path_id pa \<notin> set L"
    unfolding contents_removePathsByIds by simp
  from removePathsByIds_noop [OF this] show ?thesis by simp
qed

lemma contents_removePaths:
  "deref (snd (removePaths h S ids)) (fst (removePaths h S ids)) =
     filter (\<lambda>pa. path_id pa \<notin> set ids) (deref h S)"
  by (auto simp: removePaths_def Let_def deref_alloc_new Set_has_def
           dest: filter_length_same)

lemma removePaths_noop:
  "\<forall>pa\<in>set (deref h S). path_id pa \<notin> set ids \<Longrightarrow> removePaths h S ids = (S, h)"
  by (simp add: removePaths_def Let_def Set_has_def)

lemma removePaths_changed:
  "S < length h \<Longrightarrow> \<exists>pa\<in>set (deref h S). path_id pa \<in> set ids \<Longrightarrow>
     removePaths h S ids = (length h, h @ [filter (\<lambda>pa. path_id pa \<notin> set ids) (deref h S)])"
  by (auto simp: removePaths_def Let_def alloc_def Set_has_def filter_length_same_iff)

section \<open>Merging by id\<close>

lemma tickDraw_fields [simp]:
  "heap (tickDraw s) = heap s" "paths (tickDraw s) = paths s"
  "serviceCalls (tickDraw s) = serviceCalls s"
  by (simp_all add: tickDraw_def)

lemma strokeSet_CanvasManager_addPaths:
  "strokeSet (CanvasManager_addPaths B s) =
     strokeSet s @ pathsToReallyAdd (new_Set (map path_id (strokeSet s))) B"
  unfolding strokeSet_def CanvasManager_addPaths_def
  using contents_addPaths [of "heap s" "paths s" B]
  by (simp add: split_beta)

lemma count_id_distinct:
  "distinct (map path_id xs) \<Longrightarrow>
     length (filter (\<lambda>pa. path_id pa = i) xs) = (if i \<in> set (map path_id xs) then 1 else 0)"
  by (induction xs) auto

lemma count_id_absent:
  "i \<notin> set (map path_id xs) \<Longrightarrow> length (filter (\<lambda>pa. path_id pa = i) xs) = 0"
  by (induction xs) auto

lemma count_id_present:
  "i \<in> set (map path_id xs) \<Longrightarrow> 1 \<le> length (filter (\<lambda>pa. path_id pa = i) xs)"
  by (induction xs) auto

lemma count_after_add:
  assumes "length (filter (\<lambda>pa. path_id pa = i) S) \<le> 1" "i \<in> set (map path_id B)"
  shows "length (filter (\<lambda>pa. path_id pa = i) (S @ pathsToReallyAdd (new_Set (map path_id S)) B)) = 1"
proof -
  let ?R = "pathsToReallyAdd (new_Set (map path_id S)) B"
  have ids: "set (map path_id ?R) = set (map path_id B) - set (map path_id S)"
    by (simp only: ids_pathsToReallyAdd set_new_Set)
  have cR: "length (filter (\<lambda>pa. path_id pa = i) ?R) = (if i \<in> set (map path_id ?R) then 1 else 0)"
    by (rule count_id_distinct [OF distinct_pathsToReallyAdd])
  show ?thesis
  proof (cases "i \<in> set (map path_id S)")
    case True
    from count_id_present [OF True] assms(1)
    have "length (filter (\<lambda>pa. path_id pa = i) S) = 1" by simp
    moreover from True ids cR have "length (filter (\<lambda>pa. path_id pa = i) ?R) = 0" by simp
    ultimately show ?thesis by simp
  next
    case False
    from count_id_absent [OF False]
    have "length (filter (\<lambda>pa. path_id pa = i) S) = 0" .
    moreover from False ids cR assms(2) have "length (filter (\<lambda>pa. path_id pa = i) ?R) = 1" by simp
    ultimately show ?thesis by simp
  qed
qed

text \<open>
  Claim C1. Adding the same list of paths a second time changes nothing: the second call
  returns the reference and the store that the first call returned. At the level of the
  controller: if the stroke set holds at most one path with a given id and two batches that
  both contain a path with that id are added one after the other, the stroke set holds
  exactly one path with that id afterwards.
\<close>
theorem addPaths_idempotent:
  "addPaths (snd (addPaths h S P)) (fst (addPaths h S P)) P = addPaths h S P \<and>
   (length (filter (\<lambda>pa. path_id pa = i) (strokeSet s)) \<le> 1 \<and>
    i \<in> set (map path_id B1) \<and> i \<in> set (map path_id B2) \<longrightarrow>
      length (filter (\<lambda>pa. path_id pa = i)
                (strokeSet (CanvasManager_addPaths B2 (CanvasManager_addPaths B1 s)))) = 1)"
proof (intro conjI impI)
  show "addPaths (snd (addPaths h S P)) (fst (addPaths h S P)) P = addPaths h S P"
    by (rule addPaths_twice)
next
  assume a: "length (filter (\<lambda>pa. path_id pa = i) (strokeSet s)) \<le> 1 \<and>
    i \<in> set (map path_id B1) \<and> i \<in> set (map path_id B2)"
  let ?s1 = "CanvasManager_addPaths B1 s"
  have "length (filter (\<lambda>pa. path_id pa = i) (strokeSet ?s1)) = 1"
    unfolding strokeSet_CanvasManager_addPaths [of B1 s]
    using a by (intro count_after_add) simp_all
  then have "length (filter (\<lambda>pa. path_id pa = i) (strokeSet ?s1)) \<le> 1" by simp
  then show "length (filter (\<lambda>pa. path_id pa = i) (strokeSet (CanvasManager_addPaths B2 ?s1))) = 1"
    unfolding strokeSet_CanvasManager_addPaths [of B2 ?s1]
    using a by (intro count_after_add) simp_all
qed

theorem addPaths_idempotent_witness:
  "addPaths (snd (addPaths [[]] 0 [examplePathX, examplePathX2])) (fst (addPaths [[]] 0 [examplePathX, examplePathX2]))
       [examplePathX, examplePathX2]
     = (1, [[], [examplePathX]]) \<and>
   length (filter (\<lambda>pa. path_id pa = ''x'') (strokeSet (newCanvasManager ''p''))) \<le> 1 \<and>
   ''x'' \<in> set (map path_id [examplePathX]) \<and> ''x'' \<in> set (map path_id [examplePathA, examplePathX2]) \<and>
   strokeSet (CanvasManager_addPaths [examplePathA, examplePathX2]
                (CanvasManager_addPaths [examplePathX] (newCanvasManager ''p'')))
     = [examplePathX, examplePathA] \<and>
   length (filter (\<lambda>pa. path_id pa = ''x'')
             (strokeSet (CanvasManager_addPaths [examplePathA, examplePathX2]
                (CanvasManager_addPaths [examplePathX] (newCanvasManager ''p''))))) = 1"
  using addPaths_idempotent [of "[[]]" 0 "[examplePathX, examplePathX2]" "''x''" "newCanvasManager ''p''"
          "[examplePathX]" "[examplePathA, examplePathX2]"]
  by (simp add: strokeSet_def newCanvasManager_def CanvasManager_addPaths_def addPaths_def
        deref_def alloc_def new_Set_def addToSet_def Set_add_def Set_has_def tickDraw_def
        examplePathX_def examplePathX2_def examplePathA_def Let_def)

text \<open>
  Claim C8. Removing the same list of ids a second time changes nothing: the second call
  returns the reference and the store that the first call returned, and the array it
  refers to holds the paths of the input whose id is not in the list.
\<close>
theorem removePathsByIds_idempotent:
  "removePathsByIds (snd (removePathsByIds h S L)) (fst (removePathsByIds h S L)) L
     = removePathsByIds h S L \<and>
   deref (snd (removePathsByIds h S L)) (fst (removePathsByIds h S L))
     = filter (\<lambda>pa. path_id pa \<notin> set L) (deref h S)"
  by (simp only: removePathsByIds_twice contents_removePathsByIds)

theorem removePathsByIds_idempotent_witness:
  "removePathsByIds [[examplePathA, examplePathX]] 0 [''a'', ''q'']
     = (1, [[examplePathA, examplePathX], [examplePathX]]) \<and>
   removePathsByIds [[examplePathA, examplePathX], [examplePathX]] 1 [''a'', ''q'']
     = (1, [[examplePathA, examplePathX], [examplePathX]])"
  using removePathsByIds_idempotent [of "[[examplePathA, examplePathX]]" 0 "[''a'', ''q'']"]
  by (simp add: removePathsByIds_def deref_def alloc_def new_Set_def addToSet_def Set_add_def
        Set_has_def examplePathX_def examplePathA_def Let_def)

text \<open>
  Claim C9. \<open>pushPoint\<close> leaves the array as it is when the point equals the last
  point of the array in both coordinates, and appends the point at the end otherwise;
  pushing the same point a second time leaves the array as it was after the first push.
\<close>
theorem pushPoint_spec:
  "pushPoint (Some ps) p = (if ps \<noteq> [] \<and> last ps = p then Some ps else Some (ps @ [p]))
   \<and> pushPoint (pushPoint (Some ps) p) p = pushPoint (Some ps) p
   \<and> pushPoint None p = None"
  by (auto simp: pushPoint_def)

theorem pushPoint_spec_witness:
  "pushPoint (Some [\<lparr>point_x = 1, point_y = 2\<rparr>]) \<lparr>point_x = 1, point_y = 2\<rparr>
      = Some [\<lparr>point_x = 1, point_y = 2\<rparr>] \<and>
   pushPoint (Some [\<lparr>point_x = 1, point_y = 2\<rparr>]) \<lparr>point_x = 1, point_y = 3\<rparr>
      = Some [\<lparr>point_x = 1, point_y = 2\<rparr>, \<lparr>point_x = 1, point_y = 3\<rparr>] \<and>
   pushPoint (pushPoint (Some [\<lparr>point_x = 1, point_y = 2\<rparr>]) \<lparr>point_x = 1, point_y = 3\<rparr>)
      \<lparr>point_x = 1, point_y = 3\<rparr>
      = Some [\<lparr>point_x = 1, point_y = 2\<rparr>, \<lparr>point_x = 1, point_y = 3\<rparr>]"
  using pushPoint_spec [of "[\<lparr>point_x = 1, point_y = 2\<rparr>]" "\<lparr>point_x = 1, point_y = 2\<rparr>"]
        pushPoint_spec [of "[\<lparr>point_x = 1, point_y = 2\<rparr>]" "\<lparr>point_x = 1, point_y = 3\<rparr>"]
  by (simp add: pushPoint_def)

lemma sqrt_le_three: "(sqrt v \<le> 3) = (v \<le> 9)"
proof -
  have "sqrt 9 = 3" using real_sqrt_abs [of 3] by simp
  then have "(sqrt v \<le> 3) = (sqrt v \<le> sqrt 9)" by simp
  then show ?thesis by (simp only: real_sqrt_le_iff)
qed

lemma isCloser_exact:
  assumes "roundDouble (point_x p1 - point_x p2) = point_x p1 - point_x p2"
    and "roundDouble ((point_x p1 - point_x p2)\<^sup>2) = (point_x p1 - point_x p2)\<^sup>2"
    and "roundDouble (point_y p1 - point_y p2) = point_y p1 - point_y p2"
    and "roundDouble ((point_y p1 - point_y p2)\<^sup>2) = (point_y p1 - point_y p2)\<^sup>2"
    and "roundDouble ((point_x p1 - point_x p2)\<^sup>2 + (point_y p1 - point_y p2)\<^sup>2)
           = (point_x p1 - point_x p2)\<^sup>2 + (point_y p1 - point_y p2)\<^sup>2"
  shows "isCloser p1 p2 3 =
           (sqrt ((point_x p1 - point_x p2)\<^sup>2 + (point_y p1 - point_y p2)\<^sup>2) \<le> 3)"
proof -
  have "roundDouble (3\<^sup>2) = 9" by (simp add: roundDouble_numeral)
  then show ?thesis
    unfolding isCloser_def Let_def assms sqrt_le_three by simp
qed

lemma int_square_bound:
  fixes d :: int
  assumes "\<bar>d\<bar> < 2 ^ 26"
  shows "d\<^sup>2 < 2 ^ 52" and "0 \<le> d\<^sup>2"
proof -
  have "\<bar>d\<bar>\<^sup>2 < (2 ^ 26)\<^sup>2"
    using assms by (intro power_strict_mono) simp_all
  then show "d\<^sup>2 < 2 ^ 52" by simp
  show "0 \<le> d\<^sup>2" by simp
qed

lemma smallInteger_exact:
  assumes "smallIntegerPoint p1" and "smallIntegerPoint p2"
  shows "roundDouble (point_x p1 - point_x p2) = point_x p1 - point_x p2"
    and "roundDouble ((point_x p1 - point_x p2)\<^sup>2) = (point_x p1 - point_x p2)\<^sup>2"
    and "roundDouble (point_y p1 - point_y p2) = point_y p1 - point_y p2"
    and "roundDouble ((point_y p1 - point_y p2)\<^sup>2) = (point_y p1 - point_y p2)\<^sup>2"
    and "roundDouble ((point_x p1 - point_x p2)\<^sup>2 + (point_y p1 - point_y p2)\<^sup>2)
           = (point_x p1 - point_x p2)\<^sup>2 + (point_y p1 - point_y p2)\<^sup>2"
proof -
  define a where "a = \<lfloor>point_x p1\<rfloor> - \<lfloor>point_x p2\<rfloor>"
  define b where "b = \<lfloor>point_y p1\<rfloor> - \<lfloor>point_y p2\<rfloor>"
  have f: "of_int \<lfloor>point_x p1\<rfloor> = point_x p1" "of_int \<lfloor>point_x p2\<rfloor> = point_x p2"
    "of_int \<lfloor>point_y p1\<rfloor> = point_y p1" "of_int \<lfloor>point_y p2\<rfloor> = point_y p2"
    using assms unfolding smallIntegerPoint_def by blast+
  have xa: "point_x p1 - point_x p2 = of_int a"
    and yb: "point_y p1 - point_y p2 = of_int b"
    by (simp_all only: a_def b_def of_int_diff f)
  have g: "\<bar>point_x p1\<bar> < 2 ^ 25" "\<bar>point_x p2\<bar> < 2 ^ 25"
    "\<bar>point_y p1\<bar> < 2 ^ 25" "\<bar>point_y p2\<bar> < 2 ^ 25"
    using assms unfolding smallIntegerPoint_def by blast+
  have "\<bar>point_x p1 - point_x p2\<bar> < 2 ^ 26" "\<bar>point_y p1 - point_y p2\<bar> < 2 ^ 26"
    using g by simp_all
  then have "\<bar>real_of_int a\<bar> < real_of_int (2 ^ 26)" "\<bar>real_of_int b\<bar> < real_of_int (2 ^ 26)"
    unfolding xa yb by simp_all
  then have ab: "\<bar>a\<bar> < 2 ^ 26" "\<bar>b\<bar> < 2 ^ 26"
    by (simp_all only: of_int_abs [symmetric] of_int_less_iff)
  note sa = int_square_bound [OF ab(1)] and sb = int_square_bound [OF ab(2)]
  have xa2: "(real_of_int a)\<^sup>2 = of_int (a\<^sup>2)" and yb2: "(real_of_int b)\<^sup>2 = of_int (b\<^sup>2)"
    and sum: "(real_of_int a)\<^sup>2 + (real_of_int b)\<^sup>2 = of_int (a\<^sup>2 + b\<^sup>2)"
    by simp_all
  show "roundDouble (point_x p1 - point_x p2) = point_x p1 - point_x p2"
    unfolding xa using ab(1) by (intro roundDouble_of_int) simp
  show "roundDouble (point_y p1 - point_y p2) = point_y p1 - point_y p2"
    unfolding yb using ab(2) by (intro roundDouble_of_int) simp
  show "roundDouble ((point_x p1 - point_x p2)\<^sup>2) = (point_x p1 - point_x p2)\<^sup>2"
    unfolding xa xa2 using sa by (intro roundDouble_of_int) simp
  show "roundDouble ((point_y p1 - point_y p2)\<^sup>2) = (point_y p1 - point_y p2)\<^sup>2"
    unfolding yb yb2 using sb by (intro roundDouble_of_int) simp
  show "roundDouble ((point_x p1 - point_x p2)\<^sup>2 + (point_y p1 - point_y p2)\<^sup>2)
           = (point_x p1 - point_x p2)\<^sup>2 + (point_y p1 - point_y p2)\<^sup>2"
    unfolding xa yb sum using sa sb by (intro roundDouble_of_int) simp
qed

lemma isCloser_smallInteger:
  assumes "smallIntegerPoint p1" and "smallIntegerPoint p2"
  shows "isCloser p1 p2 3 =
           (sqrt ((point_x p1 - point_x p2)\<^sup>2 + (point_y p1 - point_y p2)\<^sup>2) \<le> 3)"
  by (rule isCloser_exact) (rule smallInteger_exact [OF assms])+

lemma isCloser_boundaryPoint: "isCloser \<lparr>point_x = 0, point_y = 0\<rparr> boundaryPoint 3"
proof -
  have a: "roundDouble (0 - 3) = - 3" by (simp add: roundDouble_numeral)
  have b: "roundDouble (0 - 1 / 2 ^ 30) = - (1 / 2 ^ 30)"
    using roundDouble_inv_pow2(2) [of 30] by simp
  have c: "roundDouble ((- 3)\<^sup>2) = 9" by (simp add: roundDouble_numeral)
  have sq: "(- (1 / 2 ^ 30 :: real))\<^sup>2 = 1 / 2 ^ 60" by (simp add: power_divide)
  have d0: "roundDouble (1 / 2 ^ 60) = 1 / 2 ^ 60"
    using roundDouble_inv_pow2(1) [of 60] by simp
  have d: "roundDouble ((- (1 / 2 ^ 30))\<^sup>2) = 1 / 2 ^ 60"
    unfolding sq by (rule d0)
  have e: "roundDouble (9 + 1 / 2 ^ 60) = 9" by (rule roundDouble_nine_plus)
  have f: "roundDouble (3\<^sup>2) = 9" by (simp add: roundDouble_numeral)
  have "isCloser \<lparr>point_x = 0, point_y = 0\<rparr> boundaryPoint 3 =
          (roundDouble (roundDouble ((roundDouble (0 - 3))\<^sup>2) +
                        roundDouble ((roundDouble (0 - 1 / 2 ^ 30))\<^sup>2)) \<le> roundDouble (3\<^sup>2))"
    by (simp only: isCloser_def Let_def boundaryPoint_def point.simps)
  then show ?thesis unfolding a b c d e f by simp
qed

text \<open>
  Claim C6 as stated fails at the boundary of the circle. The path \<open>a\<close> has the one
  point \<open>(3, 2 ^ -30)\<close>, at distance more than 3 from the origin. For the query point
  (0,0) the squares are 9 and \<open>2 ^ -60\<close>, both doubles; their sum rounds to the double 9,
  so the comparison with 9 holds and \<open>erase\<close> returns the id.
\<close>
theorem erase_boundary_counterexample:
  "erase [examplePathB] \<lparr>point_x = 0, point_y = 0\<rparr> = [''a''] \<and>
   \<not> (\<exists>p2\<in>set (path_points examplePathB).
         sqrt ((0 - point_x p2)\<^sup>2 + (0 - point_y p2)\<^sup>2) \<le> 3)"
proof -
  have "erase [examplePathB] \<lparr>point_x = 0, point_y = 0\<rparr> = [''a'']"
    by (simp add: examplePathB_def isCloser_boundaryPoint)
  moreover have "\<not> sqrt ((0 - point_x boundaryPoint)\<^sup>2 + (0 - point_y boundaryPoint)\<^sup>2) \<le> 3"
    unfolding sqrt_le_three by (simp add: boundaryPoint_def)
  ultimately show ?thesis by (simp add: examplePathB_def)
qed

text \<open>
  Claim C6, amended. \<open>erase\<close> returns, in the order of the stroke set, the ids of
  exactly the paths that have a point passing \<open>isCloser\<close> with radius 3. \<open>isCloser\<close>
  compares the squared distance with the squared radius, without a square root, every
  operation rounded to a double. Where the two differences, their squares and the sum of
  the squares are doubles already, the test is that the Euclidean distance is at most 3;
  this is so for points with integer coordinates of absolute value below \<open>2 ^ 25\<close>, so
  for a stroke set and a query point of such points \<open>erase\<close> returns the ids of exactly
  the paths with a point within Euclidean distance 3. For the set that holds the path
  \<open>a\<close> with points (0,0) and (10,10) and the query point (1,1) the result is the list
  with the one id \<open>a\<close>.
\<close>
theorem erase_hit_test:
  "erase pths p1 =
     map path_id (filter (\<lambda>pa. \<exists>p2\<in>set (path_points pa). isCloser p1 p2 3) pths) \<and>
   isCloser p1 p2 r =
     (roundDouble (roundDouble ((roundDouble (point_x p1 - point_x p2))\<^sup>2) +
                   roundDouble ((roundDouble (point_y p1 - point_y p2))\<^sup>2))
        \<le> roundDouble (r\<^sup>2)) \<and>
   (roundDouble (point_x p1 - point_x p2) = point_x p1 - point_x p2 \<and>
    roundDouble ((point_x p1 - point_x p2)\<^sup>2) = (point_x p1 - point_x p2)\<^sup>2 \<and>
    roundDouble (point_y p1 - point_y p2) = point_y p1 - point_y p2 \<and>
    roundDouble ((point_y p1 - point_y p2)\<^sup>2) = (point_y p1 - point_y p2)\<^sup>2 \<and>
    roundDouble ((point_x p1 - point_x p2)\<^sup>2 + (point_y p1 - point_y p2)\<^sup>2)
      = (point_x p1 - point_x p2)\<^sup>2 + (point_y p1 - point_y p2)\<^sup>2 \<longrightarrow>
    isCloser p1 p2 3 =
      (sqrt ((point_x p1 - point_x p2)\<^sup>2 + (point_y p1 - point_y p2)\<^sup>2) \<le> 3)) \<and>
   (smallIntegerPoint p1 \<and> (\<forall>pa\<in>set pths. \<forall>p\<in>set (path_points pa). smallIntegerPoint p) \<longrightarrow>
    erase pths p1 =
      map path_id (filter (\<lambda>pa. \<exists>p\<in>set (path_points pa).
        sqrt ((point_x p1 - point_x p)\<^sup>2 + (point_y p1 - point_y p)\<^sup>2) \<le> 3) pths)) \<and>
   erase [examplePathA] \<lparr>point_x = 1, point_y = 1\<rparr> = [''a'']"
proof (intro conjI impI)
  show "erase pths p1 =
     map path_id (filter (\<lambda>pa. \<exists>p2\<in>set (path_points pa). isCloser p1 p2 3) pths)"
    by (rule erase_filter)
  show "isCloser p1 p2 r =
     (roundDouble (roundDouble ((roundDouble (point_x p1 - point_x p2))\<^sup>2) +
                   roundDouble ((roundDouble (point_y p1 - point_y p2))\<^sup>2))
        \<le> roundDouble (r\<^sup>2))"
    by (simp add: isCloser_def)
  show "erase [examplePathA] \<lparr>point_x = 1, point_y = 1\<rparr> = [''a'']"
    by (simp add: examplePathA_def isCloser_def roundDouble_numeral)
next
  assume "roundDouble (point_x p1 - point_x p2) = point_x p1 - point_x p2 \<and>
    roundDouble ((point_x p1 - point_x p2)\<^sup>2) = (point_x p1 - point_x p2)\<^sup>2 \<and>
    roundDouble (point_y p1 - point_y p2) = point_y p1 - point_y p2 \<and>
    roundDouble ((point_y p1 - point_y p2)\<^sup>2) = (point_y p1 - point_y p2)\<^sup>2 \<and>
    roundDouble ((point_x p1 - point_x p2)\<^sup>2 + (point_y p1 - point_y p2)\<^sup>2)
      = (point_x p1 - point_x p2)\<^sup>2 + (point_y p1 - point_y p2)\<^sup>2"
  then show "isCloser p1 p2 3 =
      (sqrt ((point_x p1 - point_x p2)\<^sup>2 + (point_y p1 - point_y p2)\<^sup>2) \<le> 3)"
    by (intro isCloser_exact) simp_all
next
  assume a: "smallIntegerPoint p1 \<and>
    (\<forall>pa\<in>set pths. \<forall>p\<in>set (path_points pa). smallIntegerPoint p)"
  have "filter (\<lambda>pa. \<exists>p2\<in>set (path_points pa). isCloser p1 p2 3) pths =
        filter (\<lambda>pa. \<exists>p\<in>set (path_points pa).
          sqrt ((point_x p1 - point_x p)\<^sup>2 + (point_y p1 - point_y p)\<^sup>2) \<le> 3) pths"
    using a by (intro filter_cong refl bex_cong) (simp add: isCloser_smallInteger)
  then show "erase pths p1 =
      map path_id (filter (\<lambda>pa. \<exists>p\<in>set (path_points pa).
        sqrt ((point_x p1 - point_x p)\<^sup>2 + (point_y p1 - point_y p)\<^sup>2) \<le> 3) pths)"
    by (simp only: erase_filter)
qed

theorem erase_hit_test_witness:
  "smallIntegerPoint \<lparr>point_x = 1, point_y = 1\<rparr> \<and>
   \<not> (\<exists>pa\<in>set [examplePathA, examplePathX2]. \<exists>p\<in>set (path_points pa). \<not> smallIntegerPoint p) \<and>
   (\<exists>p2\<in>set (path_points examplePathA). sqrt ((1 - point_x p2)\<^sup>2 + (1 - point_y p2)\<^sup>2) \<le> 3) \<and>
   \<not> (\<exists>p2\<in>set (path_points examplePathX2). sqrt ((1 - point_x p2)\<^sup>2 + (1 - point_y p2)\<^sup>2) \<le> 3) \<and>
   erase [examplePathA, examplePathX2] \<lparr>point_x = 1, point_y = 1\<rparr> = [''a'']"
proof -
  have i: "smallIntegerPoint \<lparr>point_x = 1, point_y = 1\<rparr>"
    "\<forall>pa\<in>set [examplePathA, examplePathX2]. \<forall>p\<in>set (path_points pa). smallIntegerPoint p"
    by (simp_all add: smallIntegerPoint_def examplePathA_def examplePathX2_def)
  have s: "(sqrt 2 \<le> 3) = True" "(sqrt 162 \<le> 3) = False" "(sqrt 32 \<le> 3) = False"
    "(sqrt 50 \<le> 3) = False"
    unfolding sqrt_le_three by simp_all
  note t = erase_hit_test [of "[examplePathA, examplePathX2]" "\<lparr>point_x = 1, point_y = 1\<rparr>"
                "\<lparr>point_x = 0, point_y = 0\<rparr>" 3]
  from t i have e: "erase [examplePathA, examplePathX2] \<lparr>point_x = 1, point_y = 1\<rparr> =
      map path_id (filter (\<lambda>pa. \<exists>p\<in>set (path_points pa).
        sqrt ((point_x \<lparr>point_x = 1, point_y = 1\<rparr> - point_x p)\<^sup>2 +
              (point_y \<lparr>point_x = 1, point_y = 1\<rparr> - point_y p)\<^sup>2) \<le> 3)
        [examplePathA, examplePathX2])"
    by blast
  have ev: "map path_id (filter (\<lambda>pa. \<exists>p\<in>set (path_points pa).
        sqrt ((point_x \<lparr>point_x = 1, point_y = 1\<rparr> - point_x p)\<^sup>2 +
              (point_y \<lparr>point_x = 1, point_y = 1\<rparr> - point_y p)\<^sup>2) \<le> 3)
        [examplePathA, examplePathX2]) = [''a'']"
    by (simp add: examplePathA_def examplePathX2_def s)
  have j: "\<not> (\<exists>pa\<in>set [examplePathA, examplePathX2]. \<exists>p\<in>set (path_points pa). \<not> smallIntegerPoint p)"
    using i(2) by blast
  have k: "\<exists>p2\<in>set (path_points examplePathA). sqrt ((1 - point_x p2)\<^sup>2 + (1 - point_y p2)\<^sup>2) \<le> 3"
    "\<not> (\<exists>p2\<in>set (path_points examplePathX2). sqrt ((1 - point_x p2)\<^sup>2 + (1 - point_y p2)\<^sup>2) \<le> 3)"
    by (simp_all add: examplePathA_def examplePathX2_def s)
  from i(1) j k e ev show ?thesis by simp
qed

text \<open>
  Claim C7. \<open>addPaths\<close> returns the reference it was given, and an unchanged store, when
  every id to add is already present; \<open>removePathsByIds\<close> does so when no path has an
  id to remove. For an allocated reference the converse holds as well, so the returned
  reference equals the given one exactly when the operation changes nothing.
\<close>
theorem noop_returns_same_reference:
  "(set (map path_id P) \<subseteq> set (map path_id (deref h S)) \<longrightarrow> addPaths h S P = (S, h)) \<and>
   ((\<forall>pa\<in>set (deref h S). path_id pa \<notin> set L) \<longrightarrow> removePathsByIds h S L = (S, h)) \<and>
   (S < length h \<longrightarrow>
      (fst (addPaths h S P) = S) = (set (map path_id P) \<subseteq> set (map path_id (deref h S))) \<and>
      (fst (removePathsByIds h S L) = S) = (\<forall>pa\<in>set (deref h S). path_id pa \<notin> set L))"
  using addPaths_noop [of P h S] removePathsByIds_noop [of h S L]
        addPaths_same_iff [of S h P] removePathsByIds_same_iff [of S h L]
  by blast

theorem noop_returns_same_reference_witness:
  "set (map path_id [examplePathX2]) \<subseteq> set (map path_id (deref [[examplePathA, examplePathX]] 0)) \<and>
   addPaths [[examplePathA, examplePathX]] 0 [examplePathX2] = (0, [[examplePathA, examplePathX]]) \<and>
   \<not> (\<exists>pa\<in>set (deref [[examplePathA, examplePathX]] 0). path_id pa \<in> set [''q'']) \<and>
   removePathsByIds [[examplePathA, examplePathX]] 0 [''q''] = (0, [[examplePathA, examplePathX]]) \<and>
   (0::nat) < length [[examplePathA, examplePathX]]"
  using noop_returns_same_reference [of "[examplePathX2]" "[[examplePathA, examplePathX]]" 0 "[''q'']"]
  by (simp add: deref_def examplePathX_def examplePathX2_def examplePathA_def)

text \<open>
  Claim C10. For a stroke set with pairwise distinct ids and any list of paths to add,
  the result of \<open>addPaths\<close> is the stroke set followed by a subsequence of the list that
  holds, for every id of the list that is not in the stroke set, the first path of the
  list with that id and no other path; the ids of the result are pairwise distinct.
\<close>
theorem addPaths_deduplicates_batch:
  assumes "distinct (map path_id (deref h S))"
  shows "\<exists>R. deref (snd (addPaths h S P)) (fst (addPaths h S P)) = deref h S @ R \<and>
             subseq R P \<and>
             set (map path_id R) = set (map path_id P) - set (map path_id (deref h S)) \<and>
             (\<forall>pa\<in>set R. find (\<lambda>q. path_id q = path_id pa) P = Some pa) \<and>
             distinct (map path_id R) \<and>
             distinct (map path_id (deref (snd (addPaths h S P)) (fst (addPaths h S P))))"
proof -
  let ?R = "pathsToReallyAdd (new_Set (map path_id (deref h S))) P"
  have ids: "set (map path_id ?R) = set (map path_id P) - set (map path_id (deref h S))"
    by (simp only: ids_pathsToReallyAdd set_new_Set)
  have dR: "distinct (map path_id ?R)" by (rule distinct_pathsToReallyAdd)
  have first: "\<forall>pa\<in>set ?R. find (\<lambda>q. path_id q = path_id pa) P = Some pa"
    using first_pathsToReallyAdd by blast
  have "set (map path_id (deref h S)) \<inter> set (map path_id ?R) = {}"
    unfolding ids by blast
  with assms dR have "distinct (map path_id (deref h S @ ?R))"
    unfolding map_append distinct_append by blast
  with ids dR first subseq_pathsToReallyAdd contents_addPaths show ?thesis
    by (intro exI [of _ ?R]) simp
qed

theorem addPaths_deduplicates_batch_witness:
  "distinct (map path_id (deref [[examplePathA]] 0)) \<and>
   addPaths [[examplePathA]] 0 [examplePathX, examplePathA, examplePathX2]
     = (1, [[examplePathA], [examplePathA, examplePathX]]) \<and>
   (\<exists>R. deref (snd (addPaths [[examplePathA]] 0 [examplePathX, examplePathA, examplePathX2]))
               (fst (addPaths [[examplePathA]] 0 [examplePathX, examplePathA, examplePathX2]))
          = deref [[examplePathA]] 0 @ R \<and> distinct (map path_id R))"
proof -
  have d: "distinct (map path_id (deref [[examplePathA]] 0))"
    by (simp add: deref_def)
  have e: "addPaths [[examplePathA]] 0 [examplePathX, examplePathA, examplePathX2]
     = (1, [[examplePathA], [examplePathA, examplePathX]])"
    by (simp add: addPaths_def deref_def alloc_def new_Set_def addToSet_def Set_add_def
        Set_has_def examplePathX_def examplePathX2_def examplePathA_def Let_def)
  from addPaths_deduplicates_batch [OF d, of "[examplePathX, examplePathA, examplePathX2]"]
  have "\<exists>R. deref (snd (addPaths [[examplePathA]] 0 [examplePathX, examplePathA, examplePathX2]))
               (fst (addPaths [[examplePathA]] 0 [examplePathX, examplePathA, examplePathX2]))
          = deref [[examplePathA]] 0 @ R \<and> distinct (map path_id R)"
    by blast
  with d e show ?thesis by blast
qed

section \<open>Gestures\<close>

lemmas eval_defs =
  strokeSet_def newCanvasManager_def deref_def alloc_def Let_def
  new_Set_def addToSet_def Set_add_def Set_has_def tickDraw_def tickScroll_def
  getTouch_def getPointFromTouchEvent_def getPointFromMouseEvent_def
  pushPointTo_def pushPoint_def commitDrawingPath_def commitErasing_def removePaths_def
  handleGlobalMouseUp_def handleTouchEnd_def handleTouchEnd_eraser_def handleTouchEnd_default_def
  handleMouseMove_def handleTouchMove_def handleTouchMove_eraser_def handleTouchMove_default_def

lemma commitDrawingPath_short:
  "length (path_points dp) \<le> 1 \<Longrightarrow> commitDrawingPath dp s = s\<lparr>drawingPath := None\<rparr>"
  by (simp add: commitDrawingPath_def)

lemma commitDrawingPath_long:
  "1 < length (path_points dp) \<Longrightarrow>
     commitDrawingPath dp s =
       s\<lparr>paths := length (heap s), heap := heap s @ [strokeSet s @ [dp]],
         serviceCalls := serviceCalls s @ [AddAndRemovePaths (pictureId s) (Some [dp]) None],
         drawingPath := None\<rparr>"
  by (simp add: commitDrawingPath_def alloc_def strokeSet_def)

lemma commitDrawingPath_long_fields:
  assumes "1 < length (path_points dp)"
  shows "serviceCalls (commitDrawingPath dp s) =
           serviceCalls s @ [AddAndRemovePaths (pictureId s) (Some [dp]) None]"
    and "strokeSet (commitDrawingPath dp s) = strokeSet s @ [dp]"
    and "drawingPath (commitDrawingPath dp s) = None"
  unfolding commitDrawingPath_long [OF assms]
  by (simp_all add: strokeSet_def deref_def)

lemma path_points_pushPointTo:
  "path_points (pushPointTo dp p) =
     (if path_points dp \<noteq> [] \<and> last (path_points dp) = p then path_points dp
      else path_points dp @ [p])"
  by (simp add: pushPointTo_def pushPoint_Some)

lemma pushPointTo_other_fields:
  "path_id (pushPointTo dp p) = path_id dp"
  "path_color (pushPointTo dp p) = path_color dp"
  "path_width (pushPointTo dp p) = path_width dp"
  by (simp_all add: pushPointTo_def pushPoint_Some)

lemma commitErasing_nomatch:
  "\<not> (\<exists>pa\<in>set (strokeSet s). path_id pa \<in> set ids) \<Longrightarrow>
     commitErasing ids s = s\<lparr>erasingPathIds := None\<rparr>"
  unfolding commitErasing_def strokeSet_def
  by (subst removePaths_noop) simp_all

lemma commitErasing_match:
  assumes "paths s < length (heap s)" "\<exists>pa\<in>set (strokeSet s). path_id pa \<in> set ids"
  shows "commitErasing ids s =
           s\<lparr>paths := length (heap s),
             heap := heap s @ [filter (\<lambda>pa. path_id pa \<notin> set ids) (strokeSet s)],
             serviceCalls := serviceCalls s @ [AddAndRemovePaths (pictureId s) None (Some ids)],
             erasingPathIds := None\<rparr>"
  using assms unfolding commitErasing_def strokeSet_def
  by (subst removePaths_changed) simp_all

lemma commitErasing_match_fields:
  assumes "paths s < length (heap s)" "\<exists>pa\<in>set (strokeSet s). path_id pa \<in> set ids"
  shows "strokeSet (commitErasing ids s) = filter (\<lambda>pa. path_id pa \<notin> set ids) (strokeSet s)"
    and "paths (commitErasing ids s) \<noteq> paths s"
    and "serviceCalls (commitErasing ids s) =
           serviceCalls s @ [AddAndRemovePaths (pictureId s) None (Some ids)]"
    and "erasingPathIds (commitErasing ids s) = None"
  using assms(1) unfolding commitErasing_match [OF assms]
  by (simp_all add: strokeSet_def deref_def)

subsection \<open>The reference of the stroke set stays allocated\<close>

text \<open>
  \<open>paths\<close> of a new manager refers to an array of the store, and every operation keeps
  it so.
\<close>

lemma tick_paths_heap:
  "paths (tickDraw s) = paths s" "heap (tickDraw s) = heap s"
  "paths (tickScroll s) = paths s" "heap (tickScroll s) = heap s"
  "paths (draw s) = paths s" "heap (draw s) = heap s"
  by (simp_all add: tickDraw_def tickScroll_def draw_def Let_def)

lemma allocated_commitDrawingPath:
  "paths s < length (heap s) \<Longrightarrow>
     paths (commitDrawingPath dp s) < length (heap (commitDrawingPath dp s))"
  by (simp add: commitDrawingPath_def alloc_def Let_def)

lemma allocated_commitErasing:
  "paths s < length (heap s) \<Longrightarrow>
     paths (commitErasing ids s) < length (heap (commitErasing ids s))"
  by (simp add: commitErasing_def removePaths_def alloc_def Let_def)

lemma allocated_newCanvasManager:
  "paths (newCanvasManager pid) < length (heap (newCanvasManager pid))"
  by (simp add: newCanvasManager_def)

lemma allocated_sync:
  assumes "paths s < length (heap s)"
  shows "paths (CanvasManager_addPaths B s) < length (heap (CanvasManager_addPaths B s))"
    and "paths (CanvasManager_removePathsById L s) < length (heap (CanvasManager_removePathsById L s))"
  using assms
  by (simp_all add: CanvasManager_addPaths_def CanvasManager_removePathsById_def addPaths_def
        removePathsByIds_def alloc_def Let_def tick_paths_heap split_beta)

lemma allocated_pointer_up:
  assumes "paths s < length (heap s)"
  shows "paths (handleGlobalMouseUp s) < length (heap (handleGlobalMouseUp s))"
    and "paths (handleTouchEnd event s) < length (heap (handleTouchEnd event s))"
  using assms
  by (simp_all add: handleGlobalMouseUp_def handleTouchEnd_def handleTouchEnd_eraser_def
        handleTouchEnd_default_def allocated_commitDrawingPath allocated_commitErasing
        tick_paths_heap Let_def
      split: Tool.splits option.splits)

lemma allocated_pointer_move:
  assumes "paths s < length (heap s)"
  shows "paths (handleMouseMove mev s) < length (heap (handleMouseMove mev s))"
    and "paths (handleTouchMove event s) < length (heap (handleTouchMove event s))"
    and "paths (handleMouseDown rect i mev s) < length (heap (handleMouseDown rect i mev s))"
    and "paths (handleTouchStart rect i event s) < length (heap (handleTouchStart rect i event s))"
    and "paths (runFrame s) < length (heap (runFrame s))"
  using assms
  by (simp_all add: handleMouseMove_def handleTouchMove_def handleTouchMove_eraser_def
        handleTouchMove_default_def handleMouseDown_def handleTouchStart_def
        handleTouchStart_eraser_def handleTouchStart_default_def updateOffset_def
        runFrame_def runCallback_def tickDraw_callback_def tickScroll_callback_def
        tick_paths_heap Let_def
      split: Tool.splits option.splits list.splits rafCallback.splits prod.splits)

text \<open>
  The erase scenario: the stroke set holds the path \<open>a\<close> with points (0,0) and (10,10);
  the mouse goes down at (1,1) with the eraser and up again.
\<close>

lemma erase_scenario:
  "erasingPathIds (handleMouseDown None ''n'' \<lparr>mouse_clientX = 1, mouse_clientY = 1\<rparr>
      ((newCanvasManager ''p'')\<lparr>tool := Eraser, heap := [[examplePathA]]\<rparr>)) = Some [''a'']"
  "serviceCalls (handleGlobalMouseUp (handleMouseDown None ''n'' \<lparr>mouse_clientX = 1, mouse_clientY = 1\<rparr>
      ((newCanvasManager ''p'')\<lparr>tool := Eraser, heap := [[examplePathA]]\<rparr>)))
     = [AddAndRemovePaths ''p'' None (Some [''a''])]"
  "strokeSet (handleGlobalMouseUp (handleMouseDown None ''n'' \<lparr>mouse_clientX = 1, mouse_clientY = 1\<rparr>
      ((newCanvasManager ''p'')\<lparr>tool := Eraser, heap := [[examplePathA]]\<rparr>))) = []"
  by (simp_all add: eval_defs examplePathA_def handleMouseDown_def updateOffset_def isCloser_def
        roundDouble_numeral)

subsection \<open>Erasing\<close>

text \<open>
  Claim C5. An erase gesture ends with \<open>handleGlobalMouseUp\<close> or, for a touch that
  gives a point, with \<open>handleTouchEnd\<close>, which first adds the hits at that point to the
  accumulated ids. When no path of the stroke set has an accumulated id, \<open>paths\<close> keeps
  its reference, the store is unchanged and the service is not called. When some path has
  one, the new stroke set holds the paths whose id is not accumulated, \<open>paths\<close> is a new
  reference, and the service is called exactly once, with no added paths and with the
  accumulated ids as the removed ids. In both cases \<open>erasingPathIds\<close> is cleared.
\<close>
theorem erase_gesture_pointer_up:
  assumes "tool s = Eraser" and "erasingPathIds s = Some ids" and "paths s < length (heap s)"
  shows
    "(\<not> (\<exists>pa\<in>set (strokeSet s). path_id pa \<in> set ids) \<longrightarrow>
        handleGlobalMouseUp s = s\<lparr>erasingPathIds := None\<rparr>) \<and>
     ((\<exists>pa\<in>set (strokeSet s). path_id pa \<in> set ids) \<longrightarrow>
        strokeSet (handleGlobalMouseUp s) = filter (\<lambda>pa. path_id pa \<notin> set ids) (strokeSet s) \<and>
        paths (handleGlobalMouseUp s) \<noteq> paths s \<and>
        serviceCalls (handleGlobalMouseUp s) =
          serviceCalls s @ [AddAndRemovePaths (pictureId s) None (Some ids)] \<and>
        erasingPathIds (handleGlobalMouseUp s) = None) \<and>
     (getPointFromTouchEvent s event False = Some p \<longrightarrow>
        (let acc = addToSet ids (erase (strokeSet s) p) in
         (\<not> (\<exists>pa\<in>set (strokeSet s). path_id pa \<in> set acc) \<longrightarrow>
            handleTouchEnd event s = s\<lparr>erasingPathIds := None\<rparr>) \<and>
         ((\<exists>pa\<in>set (strokeSet s). path_id pa \<in> set acc) \<longrightarrow>
            strokeSet (handleTouchEnd event s) = filter (\<lambda>pa. path_id pa \<notin> set acc) (strokeSet s) \<and>
            paths (handleTouchEnd event s) \<noteq> paths s \<and>
            serviceCalls (handleTouchEnd event s) =
              serviceCalls s @ [AddAndRemovePaths (pictureId s) None (Some acc)] \<and>
            erasingPathIds (handleTouchEnd event s) = None)))"
proof -
  have m: "handleGlobalMouseUp s = commitErasing ids s"
    using assms by (simp add: handleGlobalMouseUp_def)
  have t: "handleTouchEnd event s = commitErasing (addToSet ids (erase (strokeSet s) p)) s"
    if "getPointFromTouchEvent s event False = Some p"
    using assms that
    by (simp add: handleTouchEnd_def handleTouchEnd_eraser_def strokeSet_def)
  show ?thesis
    unfolding Let_def
    using m t commitErasing_nomatch commitErasing_match_fields [OF assms(3)]
    by (intro conjI impI) simp_all
qed

theorem erase_gesture_pointer_up_witness:
  "serviceCalls (handleGlobalMouseUp (exampleErasing [''q''])) = [] \<and>
   paths (handleGlobalMouseUp (exampleErasing [''q''])) = paths (exampleErasing [''q'']) \<and>
   strokeSet (handleGlobalMouseUp (exampleErasing [''a''])) = [examplePathX] \<and>
   serviceCalls (handleGlobalMouseUp (exampleErasing [''a''])) =
     [AddAndRemovePaths ''p'' None (Some [''a''])] \<and>
   strokeSet (handleTouchEnd (touchAt 2 2) (exampleErasing [''q''])) = [] \<and>
   serviceCalls (handleTouchEnd (touchAt 2 2) (exampleErasing [''q''])) =
     [AddAndRemovePaths ''p'' None (Some [''q'', ''a'', ''x''])] \<and>
   serviceCalls (handleTouchEnd (touchAt 50 50) (exampleErasing [''q''])) = []"
proof -
  have h: "tool (exampleErasing ids) = Eraser" "erasingPathIds (exampleErasing ids) = Some ids"
    "paths (exampleErasing ids) < length (heap (exampleErasing ids))" for ids
    by (simp_all add: exampleErasing_def newCanvasManager_def)
  have s: "strokeSet (exampleErasing ids) = [examplePathA, examplePathX]" for ids
    by (simp add: exampleErasing_def newCanvasManager_def strokeSet_def deref_def)
  have g1: "getPointFromTouchEvent (exampleErasing [''q'']) (touchAt 2 2) False
              = Some \<lparr>point_x = 2, point_y = 2\<rparr>"
    and g2: "getPointFromTouchEvent (exampleErasing [''q'']) (touchAt 50 50) False
              = Some \<lparr>point_x = 50, point_y = 50\<rparr>"
    by (simp_all add: eval_defs touchAt_def exampleErasing_def)
  have e1: "erase [examplePathA, examplePathX] \<lparr>point_x = 2, point_y = 2\<rparr> = [''a'', ''x'']"
    and e2: "erase [examplePathA, examplePathX] \<lparr>point_x = 50, point_y = 50\<rparr> = []"
    by (simp_all add: examplePathA_def examplePathX_def isCloser_def roundDouble_numeral)
  note t1 = erase_gesture_pointer_up [OF h(1) h(2) h(3), of "[''q'']" "touchAt 2 2" "\<lparr>point_x = 2, point_y = 2\<rparr>"]
  note t2 = erase_gesture_pointer_up [OF h(1) h(2) h(3), of "[''a'']" "touchAt 2 2" "\<lparr>point_x = 2, point_y = 2\<rparr>"]
  note t3 = erase_gesture_pointer_up [OF h(1) h(2) h(3), of "[''q'']" "touchAt 50 50" "\<lparr>point_x = 50, point_y = 50\<rparr>"]
  have c: "serviceCalls (exampleErasing ids) = []" "pictureId (exampleErasing ids) = ''p''" for ids
    by (simp_all add: exampleErasing_def newCanvasManager_def)
  show ?thesis
    using t1 t2 t3
    unfolding s g1 g2 e1 e2
    by (simp add: c Let_def addToSet_def Set_add_def examplePathA_def examplePathX_def)
qed

subsection \<open>Drawing\<close>

text \<open>
  Claim C2 as stated fails on \<open>handleTouchEnd\<close>. Take a touch gesture in pen mode with one
  recorded point, at (0,0), that ends at (5,5):
  \<open>handleTouchEnd\<close> pushes the end point, so the path has two points when its length is
  tested. It is committed to the stroke set and the service is called with it.
\<close>
theorem draw_gesture_touch_end_counterexample:
  "tool (exampleDrawing examplePathD) = Pen \<and>
   drawingPath (exampleDrawing examplePathD) = Some examplePathD \<and>
   length (path_points examplePathD) = 1 \<and>
   serviceCalls (exampleDrawing examplePathD) = [] \<and>
   strokeSet (exampleDrawing examplePathD) = [] \<and>
   serviceCalls (handleTouchEnd (touchAt 5 5) (exampleDrawing examplePathD)) =
     [AddAndRemovePaths ''p''
        (Some [examplePathD\<lparr>path_points := [\<lparr>point_x = 0, point_y = 0\<rparr>,
                                               \<lparr>point_x = 5, point_y = 5\<rparr>]\<rparr>]) None] \<and>
   strokeSet (handleTouchEnd (touchAt 5 5) (exampleDrawing examplePathD)) =
     [examplePathD\<lparr>path_points := [\<lparr>point_x = 0, point_y = 0\<rparr>, \<lparr>point_x = 5, point_y = 5\<rparr>]\<rparr>]"
  by (simp add: eval_defs touchAt_def exampleDrawing_def examplePathD_def)

text \<open>
  Claim C2, amended. In pen mode with a path in progress:
  \<^item> \<open>handleGlobalMouseUp\<close> with a path of exactly one point only discards the path: the
    stroke set, the store and the service calls are unchanged. With a path of at least two
    points it calls the service exactly once, with that path as the only added path and no
    removed ids, and appends the path to the stroke set.
  \<^item> \<open>handleTouchEnd\<close>, for a touch that gives a point, first pushes that point (which
    extends the path unless the point equals its last point) and then does the same with
    the resulting path.
\<close>
theorem draw_gesture_pointer_up:
  assumes "tool s = Pen" and "drawingPath s = Some dp"
  shows
    "(length (path_points dp) = 1 \<longrightarrow> handleGlobalMouseUp s = s\<lparr>drawingPath := None\<rparr>) \<and>
     (2 \<le> length (path_points dp) \<longrightarrow>
        serviceCalls (handleGlobalMouseUp s) =
          serviceCalls s @ [AddAndRemovePaths (pictureId s) (Some [dp]) None] \<and>
        strokeSet (handleGlobalMouseUp s) = strokeSet s @ [dp] \<and>
        drawingPath (handleGlobalMouseUp s) = None) \<and>
     (getPointFromTouchEvent s event False = Some p \<longrightarrow>
        (let dp' = dp\<lparr>path_points :=
                        (if path_points dp \<noteq> [] \<and> last (path_points dp) = p
                         then path_points dp else path_points dp @ [p])\<rparr> in
         (length (path_points dp') = 1 \<longrightarrow> handleTouchEnd event s = s\<lparr>drawingPath := None\<rparr>) \<and>
         (2 \<le> length (path_points dp') \<longrightarrow>
            serviceCalls (handleTouchEnd event s) =
              serviceCalls s @ [AddAndRemovePaths (pictureId s) (Some [dp']) None] \<and>
            strokeSet (handleTouchEnd event s) = strokeSet s @ [dp'] \<and>
            drawingPath (handleTouchEnd event s) = None)))"
proof -
  have m: "handleGlobalMouseUp s = commitDrawingPath dp s"
    using assms by (simp add: handleGlobalMouseUp_def)
  have q: "pushPointTo dp p = dp\<lparr>path_points :=
                        (if path_points dp \<noteq> [] \<and> last (path_points dp) = p
                         then path_points dp else path_points dp @ [p])\<rparr>"
    by (simp add: pushPointTo_def pushPoint_Some)
  have t: "handleTouchEnd event s = commitDrawingPath (pushPointTo dp p) s"
    if "getPointFromTouchEvent s event False = Some p"
    using assms that by (simp add: handleTouchEnd_def)
  show ?thesis
    unfolding Let_def q [symmetric]
    using m t commitDrawingPath_short commitDrawingPath_long_fields
    by (intro conjI impI) simp_all
qed

theorem draw_gesture_pointer_up_witness:
  "handleGlobalMouseUp (exampleDrawing examplePathD) = newCanvasManager ''p'' \<and>
   serviceCalls (handleGlobalMouseUp (exampleDrawing examplePathA)) =
     [AddAndRemovePaths ''p'' (Some [examplePathA]) None] \<and>
   strokeSet (handleGlobalMouseUp (exampleDrawing examplePathA)) = [examplePathA] \<and>
   handleTouchEnd (touchAt 0 0) (exampleDrawing examplePathD) = newCanvasManager ''p'' \<and>
   strokeSet (handleTouchEnd (touchAt 5 5) (exampleDrawing examplePathD)) =
     [examplePathD\<lparr>path_points := [\<lparr>point_x = 0, point_y = 0\<rparr>, \<lparr>point_x = 5, point_y = 5\<rparr>]\<rparr>]"
proof -
  have h: "tool (exampleDrawing dp) = Pen" "drawingPath (exampleDrawing dp) = Some dp" for dp
    by (simp_all add: exampleDrawing_def newCanvasManager_def)
  have c: "serviceCalls (exampleDrawing dp) = []" "pictureId (exampleDrawing dp) = ''p''"
    "strokeSet (exampleDrawing dp) = []"
    "exampleDrawing dp\<lparr>drawingPath := None\<rparr> = newCanvasManager ''p''" for dp
    by (simp_all add: exampleDrawing_def newCanvasManager_def strokeSet_def deref_def)
  have g: "getPointFromTouchEvent (exampleDrawing dp) (touchAt cx cy) False
             = Some \<lparr>point_x = cx, point_y = cy\<rparr>" for dp cx cy
    by (simp add: eval_defs touchAt_def exampleDrawing_def)
  note t1 = draw_gesture_pointer_up [OF h, of examplePathD "touchAt 0 0" "\<lparr>point_x = 0, point_y = 0\<rparr>"]
  note t2 = draw_gesture_pointer_up [OF h, of examplePathA "touchAt 0 0" "\<lparr>point_x = 0, point_y = 0\<rparr>"]
  note t3 = draw_gesture_pointer_up [OF h, of examplePathD "touchAt 5 5" "\<lparr>point_x = 5, point_y = 5\<rparr>"]
  show ?thesis
    using t1 t2 t3 unfolding g c
    by (simp add: Let_def examplePathA_def examplePathD_def)
qed

subsection \<open>Panning\<close>

lemma pan_mouse_move:
  assumes "tool s = Hand" and "handScrollingByMouse s"
  shows "bufferedScrollLeft (handleMouseMove event s) =
           bufferedScrollLeft s + (prevX s - (mouse_clientX event - offsetLeft s))"
    and "bufferedScrollTop (handleMouseMove event s) =
           bufferedScrollTop s + (prevY s - (mouse_clientY event - offsetTop s))"
  using assms
  by (simp_all add: handleMouseMove_def getPointFromMouseEvent_def tickScroll_def Let_def)

lemma pan_touch_move:
  assumes "tool s = Hand" and "getPointFromTouchEvent s event True = Some p"
  shows "bufferedScrollLeft (handleTouchMove event s) = bufferedScrollLeft s + (prevX s - point_x p)"
    and "bufferedScrollTop (handleTouchMove event s) = bufferedScrollTop s + (prevY s - point_y p)"
  using assms
  by (simp_all add: handleTouchMove_def handleTouchMove_default_def tickScroll_def)

lemma pan_touch_end:
  assumes "tool s = Hand" and "getPointFromTouchEvent s event True = Some p"
  shows "bufferedScrollLeft (handleTouchEnd event s) =
           bufferedScrollLeft s + (prevX s - point_x p) + (prevY s - point_y p)"
    and "bufferedScrollTop (handleTouchEnd event s) = bufferedScrollTop s"
  using assms
  by (simp_all add: handleTouchEnd_def handleTouchEnd_default_def tickScroll_def Let_def)

lemma scroll_apply:
  "scrollLeft (tickScroll_callback s) = bufferedScrollLeft s"
  "scrollTop (tickScroll_callback s) = bufferedScrollTop s"
  by (simp_all add: tickScroll_callback_def draw_def Let_def)

text \<open>
  Claim C3. While panning, \<open>handleMouseMove\<close> and \<open>handleTouchMove\<close> add the difference
  between the anchor and the current position to the buffered offset of the same axis, and
  the scroll frame copies the buffered offsets to \<open>scrollLeft\<close> and \<open>scrollTop\<close>.
  \<open>handleTouchEnd\<close> adds both differences to \<open>bufferedScrollLeft\<close> and leaves
  \<open>bufferedScrollTop\<close> as it is: from the anchor (100,100) to (90,95) the buffered
  offset grows by (15,0), where \<open>handleTouchMove\<close> gives (10,5).
\<close>
theorem pan_touch_end_adds_both_deltas_to_scrollLeft:
  "bufferedScrollLeft examplePanning = 0 \<and> bufferedScrollTop examplePanning = 0 \<and>
   prevX examplePanning = 100 \<and> prevY examplePanning = 100 \<and>
   bufferedScrollLeft (handleTouchMove (touchAt 90 95) examplePanning) = 10 \<and>
   bufferedScrollTop (handleTouchMove (touchAt 90 95) examplePanning) = 5 \<and>
   bufferedScrollLeft (handleTouchEnd (touchAt 90 95) examplePanning) = 15 \<and>
   bufferedScrollTop (handleTouchEnd (touchAt 90 95) examplePanning) = 0 \<and>
   scrollLeft (runFrame (handleTouchEnd (touchAt 90 95) examplePanning)) = 15 \<and>
   scrollTop (runFrame (handleTouchEnd (touchAt 90 95) examplePanning)) = 0"
  by (simp add: eval_defs touchAt_def examplePanning_def runFrame_def runCallback_def
        tickScroll_callback_def draw_def)

section \<open>Frame scheduler\<close>





end
